theory Spec2Isabelle
  imports Complex_Main
begin

section \<open>Python strings\<close>

text \<open>
  A Python \<open>str\<close> is a sequence of Unicode code points; it is modelled as a list of
  natural numbers, one per code point. \<open>lit\<close> writes an ASCII literal of the source;
  the two non-ASCII characters of the templates are given by their code points
  (8212, the em dash; 8217, the right single quotation mark).
\<close>

type_synonym pystr = "nat list"

definition lit :: "string \<Rightarrow> pystr" where
  "lit cs = map of_char cs"

text \<open>
  \<open>str.isspace\<close> for one code point: the 29 code points for which Python's
  \<open>str.strip()\<close> (no argument) removes a character.
\<close>

definition isspace :: "nat \<Rightarrow> bool" where
  "isspace c \<longleftrightarrow>
     (9 \<le> c \<and> c \<le> 13) \<or> (28 \<le> c \<and> c \<le> 32) \<or> c = 133 \<or> c = 160 \<or> c = 5760 \<or>
     (8192 \<le> c \<and> c \<le> 8202) \<or> c = 8232 \<or> c = 8233 \<or> c = 8239 \<or> c = 8287 \<or>
     c = 12288"

text \<open>\<open>s.strip()\<close>: leading and trailing whitespace removed.\<close>

definition strip :: "pystr \<Rightarrow> pystr" where
  "strip s = rev (dropWhile isspace (rev (dropWhile isspace s)))"

text \<open>
  \<open>str.lower\<close> on ASCII strings. Python's full Unicode case mapping is a table of the
  interpreter, not of this program: the run takes its \<open>lower\<close> from the environment
  (see \<open>str_lower\<close> below), and this function is the instance used for concrete
  ASCII inputs.
\<close>

definition ascii_lower :: "pystr \<Rightarrow> pystr" where
  "ascii_lower s = map (\<lambda>c. if 65 \<le> c \<and> c \<le> 90 then c + 32 else c) s"

text \<open>
  The exceptions of a run. Those that the standard library raises are results of the
  environment (see \<open>env\<close> below); the program itself raises \<open>ResumeNotFound\<close>.
\<close>

datatype fnf =
    ResumeNotFound pystr    \<comment> \<open>raised by \<open>build_message\<close>: "Resume not found at ..."\<close>
  | NoSuchFile pystr        \<comment> \<open>raised by \<open>open\<close>: the file is absent\<close>

datatype exn =
    FileNotFoundError fnf
  | IsADirectoryError pystr
  | PermissionError pystr
  | AttributeError          \<comment> \<open>\<open>formataddr\<close> on a \<open>None\<close> address\<close>
  | TypeError               \<comment> \<open>subscript of \<open>None\<close>\<close>
  | IndexError
  | KeyError pystr          \<comment> \<open>\<open>str.format\<close>: no such keyword\<close>
  | ValueError              \<comment> \<open>\<open>str.format\<close>: malformed pattern; a refused header or duration\<close>
  | UnicodeEncodeError
  | OverflowError
  | SourceError             \<comment> \<open>any failure of opening or parsing the CSV file\<close>
  | TransportFailure        \<comment> \<open>any exception of an SMTP attempt\<close>

text \<open>
  \<open>pattern.format(**kw)\<close> for patterns whose replacement fields are plain keyword
  names, which is all that the patterns of \<open>TEMPLATES\<close> use: \<open>{name}\<close> is replaced
  by the keyword's value (not rescanned), \<open>{{\<close> and \<open>}}\<close> are escaped braces. The second
  argument is the field name read so far, \<open>None\<close> outside a field.
\<close>

fun format_from :: "(pystr \<rightharpoonup> pystr) \<Rightarrow> pystr option \<Rightarrow> pystr \<Rightarrow> exn + pystr" where
  "format_from kw None [] = Inr []"
| "format_from kw (Some name) [] = Inl ValueError"
| "format_from kw (Some name) (c # cs) =
     (if c = 125 then
        (case kw (rev name) of
           None \<Rightarrow> Inl (KeyError (rev name))
         | Some v \<Rightarrow> (case format_from kw None cs of Inl x \<Rightarrow> Inl x | Inr t \<Rightarrow> Inr (v @ t)))
      else if c = 123 then Inl ValueError
      else format_from kw (Some (c # name)) cs)"
| "format_from kw None [c] =
     (if c = 123 \<or> c = 125 then Inl ValueError else Inr [c])"
| "format_from kw None (c # d # cs) =
     (if (c = 123 \<and> d = 123) \<or> (c = 125 \<and> d = 125) then
        (case format_from kw None cs of Inl x \<Rightarrow> Inl x | Inr t \<Rightarrow> Inr (c # t))
      else if c = 123 then format_from kw (Some []) (d # cs)
      else if c = 125 then Inl ValueError
      else (case format_from kw None (d # cs) of Inl x \<Rightarrow> Inl x | Inr t \<Rightarrow> Inr (c # t)))"

definition format :: "pystr \<Rightarrow> (pystr \<times> pystr) list \<Rightarrow> exn + pystr" where
  "format pattern kwargs = format_from (map_of kwargs) None pattern"

section \<open>Configuration\<close>

definition DEFAULT_DELAY_SECONDS :: real where
  "DEFAULT_DELAY_SECONDS = 3"

definition MAX_RETRIES :: nat where
  "MAX_RETRIES = 3"

definition RETRY_BACKOFF :: nat where
  "RETRY_BACKOFF = 5"

record template =
  subject :: pystr
  body :: pystr

definition frontend_template :: template where
  "frontend_template = \<lparr>
     subject =
       lit ''{company} '' @ [8212] @ lit '' Frontend Engineer Application '' @ [8212] @
       lit '' Ayush Chauhan'',
     body =
       lit ''Hi {contact_name},'' @ [10, 10] @
       lit ''Hope you'' @ [8217] @ lit ''re doing well! I'' @ [8217] @
       lit ''m Ayush Chauhan, an engineering intern at Agnitech Forge and an NSUT graduate '' @
       lit ''with a strong foundation in full stack development. I have worked extensively '' @
       lit ''with React, Next.js, and modern frontend systems to build user-friendly, '' @
       lit ''performant applications.'' @ [10, 10] @
       lit ''I'' @ [8217] @
       lit ''m actively looking for fresher opportunities and would love to connect '' @
       lit ''to discuss any possibilities at {company}.'' @ [10, 10] @
       lit ''Warm regards,'' @ [10] @ lit ''Ayush'' @ [10] \<rparr>"

definition backend_template :: template where
  "backend_template = \<lparr>
     subject =
       lit ''{company} '' @ [8212] @ lit '' Backend Engineer Application '' @ [8212] @
       lit '' Ayush Chauhan'',
     body =
       lit ''Hi {contact_name},'' @ [10, 10] @
       lit ''Hope you'' @ [8217] @ lit ''re doing well! I'' @ [8217] @
       lit ''m Ayush Chauhan, an engineering intern at Agnitech Forge and an NSUT graduate '' @
       lit ''with a strong foundation in full stack development. I'' @ [8217] @
       lit ''ve gained hands-on experience with Node.js, Express, and MongoDB, working '' @
       lit ''on APIs, integrations, and backend workflows.'' @ [10, 10] @
       lit ''I'' @ [8217] @
       lit ''m actively looking for fresher opportunities and would love to connect '' @
       lit ''to discuss any possibilities at {company}.'' @ [10, 10] @
       lit ''Warm regards,'' @ [10] @ lit ''Ayush'' @ [10] \<rparr>"

definition software_template :: template where
  "software_template = \<lparr>
     subject =
       lit ''{company} '' @ [8212] @ lit '' Software Engineer Application '' @ [8212] @
       lit '' Ayush Chauhan'',
     body =
       lit ''Hi {contact_name},'' @ [10, 10] @
       lit ''Hope you'' @ [8217] @ lit ''re doing well! I'' @ [8217] @
       lit ''m Ayush Chauhan, an engineering intern at Agnitech Forge and an NSUT graduate '' @
       lit ''with a solid background in full stack software development. My experience '' @
       lit ''spans React, Node.js, MongoDB, and even blockchain development through '' @
       lit ''Solidity projects.'' @ [10, 10] @
       lit ''I'' @ [8217] @
       lit ''m actively looking for fresher opportunities and would love to connect '' @
       lit ''to discuss any possibilities at {company}.'' @ [10, 10] @
       lit ''Warm regards,'' @ [10] @ lit ''Ayush'' @ [10] \<rparr>"

text \<open>The dictionary \<open>TEMPLATES\<close>, in the order of the source.\<close>

definition TEMPLATES :: "(pystr \<times> template) list" where
  "TEMPLATES =
     [(lit ''frontend'', frontend_template),
      (lit ''backend'', backend_template),
      (lit ''software'', software_template)]"

section \<open>Data\<close>

text \<open>
  A row of \<open>csv.DictReader\<close>: a dictionary from column names to strings. \<open>r k\<close> is
  \<open>r.get(k)\<close>, which is \<open>None\<close> when the file has no such column and when the row is
  too short to reach it.
\<close>

type_synonym row = "pystr \<Rightarrow> pystr option"

text \<open>\<open>r.get(k) or d\<close>: the default replaces a missing value and an empty one.\<close>

definition get_or :: "row \<Rightarrow> pystr \<Rightarrow> pystr \<Rightarrow> pystr" where
  "get_or r k d = (case r k of None \<Rightarrow> d | Some v \<Rightarrow> if v = [] then d else v)"

text \<open>The truth value of an optional string: \<open>None\<close> and \<open>''\<close> are false.\<close>

definition truthy :: "pystr option \<Rightarrow> bool" where
  "truthy x = (case x of None \<Rightarrow> False | Some v \<Rightarrow> v \<noteq> [])"

text \<open>The parsed command line (\<open>args\<close>), environment defaults already applied.\<close>

record args =
  csv :: pystr
  resume :: pystr
  from_email :: "pystr option"
  from_name :: pystr
  smtp_host :: pystr
  smtp_port :: int
  smtp_user :: "pystr option"
  smtp_pass :: "pystr option"
  delay :: real
  dry_run :: bool
  send :: bool

type_synonym bytes = "char list"

record attachment =
  data :: bytes
  maintype :: pystr
  subtype :: pystr
  filename :: pystr

text \<open>
  An \<open>EmailMessage\<close> as \<open>build_message\<close> fills it: the three headers and the text
  content as the email library stores them (it parses, decodes and normalises what it is
  given), and the attachment as it is given to \<open>add_attachment\<close> (the part's payload
  decodes to \<open>data\<close>).
\<close>

record message =
  msg_from :: pystr
  msg_to :: pystr
  msg_subject :: pystr
  msg_content :: pystr
  msg_attachment :: attachment

datatype level = INFO | WARNING | ERROR

datatype pyval = VStr pystr | VInt int | VBool bool | VExc exn

text \<open>
  What a run does to the outside, in order: log records (format string and arguments, as
  \<open>logging\<close> receives them), lines printed, sleeps, file-system accesses and SMTP
  attempts.
\<close>

datatype event =
    Log level pystr "pyval list"
  | LogException pystr "pyval list"
  | Print "pyval list"
  | Sleep real
  | ReadCsv pystr
  | PathExists pystr
  | ReadFile pystr
  | SmtpSend pystr int "pystr option" "pystr option" message

text \<open>
  The environment of a run: what the interpreter, the standard library and the outside
  world answer.
  \<^item> \<open>str_lower\<close> is \<open>str.lower\<close>.
  \<^item> \<open>record_source p\<close> is what \<open>read_csv(p)\<close> yields.
  \<^item> \<open>path_exists t p\<close> and \<open>read_bytes t p\<close> are the results of \<open>Path.exists()\<close> and of
    opening and reading the file at \<open>p\<close>, when this is the \<open>t\<close>-th access of the run to
    the file system (which may change while the run sleeps).
  \<^item> \<open>mailer n\<close> tells whether the \<open>n\<close>-th SMTP attempt of the run (connect, STARTTLS,
    login, send, quit) goes through without an exception.
  \<^item> \<open>lib_formataddr\<close>, \<open>lib_set_header\<close>, \<open>lib_set_content\<close> and \<open>lib_add_attachment\<close>
    are the email library: \<open>formataddr\<close> on a pair of strings, \<open>msg[name] = value\<close>
    (the value stored, or the exception for a value it refuses, such as one with a line
    break), \<open>set_content\<close> and \<open>add_attachment\<close>.
  \<^item> \<open>sleep_error d\<close> is the exception with which \<open>time.sleep\<close> refuses the duration
    \<open>d\<close> (a negative one, one beyond the platform's range), \<open>None\<close> when it sleeps.
  Printing and logging are taken to succeed, as are the sleeps of \<open>send_smtp\<close>, whose
  durations are 5 and 10.
\<close>

record env =
  str_lower :: "pystr \<Rightarrow> pystr"
  record_source :: "pystr \<Rightarrow> exn + row list"
  path_exists :: "nat \<Rightarrow> pystr \<Rightarrow> exn + bool"
  read_bytes :: "nat \<Rightarrow> pystr \<Rightarrow> exn + bytes"
  mailer :: "nat \<Rightarrow> bool"
  lib_formataddr :: "pystr \<times> pystr \<Rightarrow> exn + pystr"
  lib_set_header :: "pystr \<Rightarrow> pystr \<Rightarrow> exn + pystr"
  lib_set_content :: "pystr \<Rightarrow> exn + pystr"
  lib_add_attachment :: "bytes \<Rightarrow> pystr \<Rightarrow> pystr \<Rightarrow> pystr \<Rightarrow> exn option"
  sleep_error :: "real \<Rightarrow> exn option"

record state =
  trace :: "event list"
  fs_clock :: nat
  smtp_clock :: nat

definition init :: state where
  "init = \<lparr>trace = [], fs_clock = 0, smtp_clock = 0\<rparr>"

definition emit :: "event \<Rightarrow> state \<Rightarrow> state" where
  "emit ev s = s\<lparr>trace := trace s @ [ev]\<rparr>"

section \<open>Helper functions\<close>

definition read_csv :: "env \<Rightarrow> state \<Rightarrow> pystr \<Rightarrow> (exn + row list) \<times> state" where
  "read_csv e s path = (record_source e path, emit (ReadCsv path) s)"

text \<open>
  \<open>formataddr\<close> calls \<open>address.encode\<close> first, which \<open>None\<close> does not have; on two
  strings the result is the library's.
\<close>

definition formataddr :: "env \<Rightarrow> pystr \<times> pystr option \<Rightarrow> exn + pystr" where
  "formataddr e pair =
     (case snd pair of
        None \<Rightarrow> Inl AttributeError
      | Some address \<Rightarrow> lib_formataddr e (fst pair, address))"

text \<open>
  \<open>Path(p)\<close> on POSIX: the components of \<open>p\<close>, empty ones and \<open>.\<close> dropped, after the
  root (\<open>//\<close> when \<open>p\<close> starts with exactly two slashes). \<open>path_str\<close> is \<open>str(Path(p))\<close>,
  the path that the file system is asked for; \<open>path_name\<close> is \<open>Path(p).name\<close>.
\<close>

fun split :: "nat \<Rightarrow> pystr \<Rightarrow> pystr list" where
  "split sep [] = [[]]"
| "split sep (c # cs) =
     (if c = sep then [] # split sep cs
      else (case split sep cs of [] \<Rightarrow> [[c]] | x # xs \<Rightarrow> (c # x) # xs))"

definition path_parts :: "pystr \<Rightarrow> pystr list" where
  "path_parts p = filter (\<lambda>c. c \<noteq> [] \<and> c \<noteq> lit ''.'') (split 47 p)"

definition path_root :: "pystr \<Rightarrow> pystr" where
  "path_root p =
     (if takeWhile (\<lambda>c. c = 47) p = [] then []
      else if length (takeWhile (\<lambda>c. c = 47) p) = 2 then lit ''//''
      else lit ''/'')"

fun join :: "pystr \<Rightarrow> pystr list \<Rightarrow> pystr" where
  "join sep [] = []"
| "join sep [x] = x"
| "join sep (x # y # ys) = x @ sep @ join sep (y # ys)"

definition path_str :: "pystr \<Rightarrow> pystr" where
  "path_str p =
     (if path_root p = [] \<and> path_parts p = [] then lit ''.''
      else path_root p @ join (lit ''/'') (path_parts p))"

definition path_name :: "pystr \<Rightarrow> pystr" where
  "path_name p = (case path_parts p of [] \<Rightarrow> [] | c # cs \<Rightarrow> last (c # cs))"

text \<open>
  The first half of \<open>build_message\<close>: the \<open>From\<close>, \<open>To\<close> and \<open>Subject\<close> headers and the
  content, in this order. The result holds the four values as the library stores them.
\<close>

definition set_headers ::
  "env \<Rightarrow> pystr \<Rightarrow> pystr option \<Rightarrow> pystr \<Rightarrow> pystr \<Rightarrow> pystr \<Rightarrow>
     exn + pystr \<times> pystr \<times> pystr \<times> pystr" where
  "set_headers e from_name' from_email' to_email subject' body_text =
     (case formataddr e (from_name', from_email') of
        Inl x \<Rightarrow> Inl x
      | Inr sender \<Rightarrow>
     (case lib_set_header e (lit ''From'') sender of
        Inl x \<Rightarrow> Inl x
      | Inr h_from \<Rightarrow>
     (case lib_set_header e (lit ''To'') to_email of
        Inl x \<Rightarrow> Inl x
      | Inr h_to \<Rightarrow>
     (case lib_set_header e (lit ''Subject'') subject' of
        Inl x \<Rightarrow> Inl x
      | Inr h_subject \<Rightarrow>
     (case lib_set_content e body_text of
        Inl x \<Rightarrow> Inl x
      | Inr content \<Rightarrow> Inr (h_from, h_to, h_subject, content))))))"

text \<open>
  The second half, "attach resume": the existence check, the reading of the file and
  \<open>add_attachment\<close>, or the \<open>FileNotFoundError\<close> of the \<open>else\<close> branch.
\<close>

definition attach_resume ::
  "env \<Rightarrow> state \<Rightarrow> pystr \<times> pystr \<times> pystr \<times> pystr \<Rightarrow> pystr \<Rightarrow> (exn + message) \<times> state" where
  "attach_resume e s hs resume_path =
     (let p = path_str resume_path;
          s1 = (emit (PathExists p) s)\<lparr>fs_clock := fs_clock s + 1\<rparr>
      in
      case path_exists e (fs_clock s) p of
        Inl x \<Rightarrow> (Inl x, s1)
      | Inr found \<Rightarrow>
          if found then
            let s2 = (emit (ReadFile p) s1)\<lparr>fs_clock := fs_clock s1 + 1\<rparr> in
            (case read_bytes e (fs_clock s1) p of
               Inl x \<Rightarrow> (Inl x, s2)
             | Inr d \<Rightarrow>
                 (case lib_add_attachment e d (lit ''application'') (lit ''pdf'')
                         (path_name resume_path) of
                    Some x \<Rightarrow> (Inl x, s2)
                  | None \<Rightarrow>
                      (case hs of (h_from, h_to, h_subject, content) \<Rightarrow>
                         (Inr \<lparr>msg_from = h_from, msg_to = h_to, msg_subject = h_subject,
                               msg_content = content,
                               msg_attachment =
                                 \<lparr>data = d, maintype = lit ''application'',
                                  subtype = lit ''pdf'',
                                  filename = path_name resume_path\<rparr>\<rparr>, s2))))
          else (Inl (FileNotFoundError (ResumeNotFound p)), s1))"

definition build_message ::
  "env \<Rightarrow> state \<Rightarrow> pystr \<Rightarrow> pystr option \<Rightarrow> pystr \<Rightarrow> pystr \<Rightarrow> pystr \<Rightarrow> pystr \<Rightarrow>
     (exn + message) \<times> state" where
  "build_message e s from_name' from_email' to_email subject' body_text resume_path =
     (case set_headers e from_name' from_email' to_email subject' body_text of
        Inl x \<Rightarrow> (Inl x, s)
      | Inr hs \<Rightarrow> attach_resume e s hs resume_path)"

text \<open>
  The loop of \<open>send_smtp\<close> over the attempt numbers still to run. Falling out of the loop
  returns \<open>None\<close>.
\<close>

fun send_attempts ::
  "env \<Rightarrow> pystr \<Rightarrow> int \<Rightarrow> pystr option \<Rightarrow> pystr option \<Rightarrow> message \<Rightarrow> nat list \<Rightarrow> state \<Rightarrow>
     bool option \<times> state" where
  "send_attempts e host port user pass m [] s = (None, s)"
| "send_attempts e host port user pass m (attempt # rest) s =
     (let s1 = (emit (SmtpSend host port user pass m) s)\<lparr>smtp_clock := smtp_clock s + 1\<rparr> in
      if mailer e (smtp_clock s) then (Some True, s1)
      else
        let s2 = emit (LogException (lit ''Send attempt %s failed: %s'')
                         [VInt (int attempt), VExc TransportFailure]) s1 in
        if attempt < MAX_RETRIES then
          send_attempts e host port user pass m rest
            (emit (Sleep (real (RETRY_BACKOFF * attempt))) s2)
        else (Some False, s2))"

definition send_smtp ::
  "env \<Rightarrow> state \<Rightarrow> pystr \<Rightarrow> int \<Rightarrow> pystr option \<Rightarrow> pystr option \<Rightarrow> message \<Rightarrow>
     bool option \<times> state" where
  "send_smtp e s host port user pass m =
     send_attempts e host port user pass m [1..<MAX_RETRIES + 1] s"

section \<open>Main routine\<close>

text \<open>The per-row values computed at the head of the loop body of \<open>main\<close>.\<close>

definition to_email_of :: "row \<Rightarrow> pystr" where
  "to_email_of r = strip (get_or r (lit ''email'') [])"

definition company_of :: "row \<Rightarrow> pystr" where
  "company_of r = strip (get_or r (lit ''company'') (lit ''Company''))"

definition contact_name_of :: "row \<Rightarrow> pystr" where
  "contact_name_of r =
     (let n = strip (get_or r (lit ''contact_name'') []) in
      if n = [] then lit ''Hiring Team'' else n)"

definition preferred_of :: "env \<Rightarrow> row \<Rightarrow> pystr" where
  "preferred_of e r = str_lower e (strip (get_or r (lit ''role_preference'') []))"

definition subject_override_of :: "row \<Rightarrow> pystr" where
  "subject_override_of r = strip (get_or r (lit ''subject'') [])"

text \<open>"pick template": the role key chosen for a normalised preference.\<close>

definition pick_role :: "pystr \<Rightarrow> pystr" where
  "pick_role preferred =
     (if preferred \<in> set [lit ''frontend'', lit ''front-end'', lit ''ui''] then lit ''frontend''
      else if preferred \<in> set [lit ''backend'', lit ''back-end''] then lit ''backend''
      else lit ''software'')"

text \<open>
  Template lookup and the rendering of subject and body. \<open>TEMPLATES.get\<close> gives \<open>None\<close>
  for an unknown key, and subscripting \<open>None\<close> raises.
\<close>

definition render :: "pystr \<Rightarrow> pystr \<Rightarrow> pystr \<Rightarrow> pystr \<Rightarrow> exn + pystr \<times> pystr" where
  "render role company contact_name subject_override =
     (case map_of TEMPLATES role of
        None \<Rightarrow> Inl TypeError
      | Some template \<Rightarrow>
          (case (if subject_override \<noteq> [] then Inr subject_override
                 else format (subject template) [(lit ''company'', company)]) of
             Inl x \<Rightarrow> Inl x
           | Inr subject' \<Rightarrow>
               (case format (body template)
                       [(lit ''contact_name'', contact_name), (lit ''company'', company)] of
                  Inl x \<Rightarrow> Inl x
                | Inr body' \<Rightarrow> Inr (subject', body'))))"

text \<open>
  How one pass through the loop body ends: it falls through to the next row (also by
  \<open>continue\<close>), \<open>main\<close> returns, or an exception leaves \<open>main\<close>.
\<close>

datatype flow = Next | Return | Raise exn

definition preview :: "args \<Rightarrow> pystr \<Rightarrow> pystr \<Rightarrow> pystr \<Rightarrow> pystr \<Rightarrow> state \<Rightarrow> state" where
  "preview a to_email company subject' body' s =
     s\<lparr>trace := trace s @
        [Print [VStr (lit ''----------'')],
         Print [VStr (lit ''To: '' @ to_email)],
         Print [VStr (lit ''Subject: '' @ subject')],
         Print [VStr body'],
         Print [VStr (lit ''Attachment:''), VStr (resume a)],
         Log INFO (lit ''Previewed email to %s (%s)'') [VStr to_email, VStr company]]\<rparr>"

text \<open>
  The \<open>else\<close> branch of the loop body: the delivery, the log record of its outcome and
  the throttle sleep, which \<open>time.sleep\<close> may refuse.
\<close>

definition deliver :: "env \<Rightarrow> args \<Rightarrow> pystr \<Rightarrow> message \<Rightarrow> state \<Rightarrow> flow \<times> state" where
  "deliver e a to_email msg s =
     (case send_smtp e s (smtp_host a) (smtp_port a) (smtp_user a) (smtp_pass a) msg of
        (success, s1) \<Rightarrow>
          let s2 = (if success = Some True
                    then emit (Log INFO (lit ''Sent to %s'') [VStr to_email]) s1
                    else emit (Log ERROR (lit ''Failed to send to %s after retries'')
                                 [VStr to_email]) s1) in
          (case sleep_error e (delay a) of
             Some x \<Rightarrow> (Raise x, s2)
           | None \<Rightarrow> (Next, emit (Sleep (delay a)) s2)))"

text \<open>
  The loop body from the \<open>try\<close> on: the message is built with the resolved recipient,
  subject and body, a \<open>FileNotFoundError\<close> ends \<open>main\<close>, and the message is previewed or
  delivered.
\<close>

definition build_and_route ::
  "env \<Rightarrow> args \<Rightarrow> pystr \<Rightarrow> pystr \<Rightarrow> pystr \<Rightarrow> pystr \<Rightarrow> state \<Rightarrow> flow \<times> state" where
  "build_and_route e a to_email company subject' body' s =
     (case build_message e s (from_name a) (from_email a) to_email subject' body'
             (resume a) of
        (Inl (FileNotFoundError fe), s1) \<Rightarrow>
          (Return,
           emit (Print [VExc (FileNotFoundError fe)])
             (emit (Log ERROR (lit ''Resume file error: %s'')
                      [VExc (FileNotFoundError fe)]) s1))
      | (Inl x, s1) \<Rightarrow> (Raise x, s1)
      | (Inr msg, s1) \<Rightarrow>
          if dry_run a \<or> \<not> send a then
            (Next, preview a to_email company subject' body' s1)
          else deliver e a to_email msg s1)"

definition loop_body :: "env \<Rightarrow> args \<Rightarrow> nat \<Rightarrow> row \<Rightarrow> state \<Rightarrow> flow \<times> state" where
  "loop_body e a i r s =
     (let to_email = to_email_of r;
          company = company_of r;
          contact_name = contact_name_of r;
          preferred = preferred_of e r;
          subject_override = subject_override_of r
      in
      if to_email = [] then
        (Next, emit (Log WARNING (lit ''Row %d missing email, skipping'') [VInt (int i)]) s)
      else
        (case render (pick_role preferred) company contact_name subject_override of
           Inl x \<Rightarrow> (Raise x, s)
         | Inr (subject', body') \<Rightarrow>
             build_and_route e a to_email company subject' body' s))"

text \<open>\<open>for i, r in enumerate(rows, start=1)\<close>, from row number \<open>i\<close> on.\<close>

fun dispatch :: "env \<Rightarrow> args \<Rightarrow> nat \<Rightarrow> row list \<Rightarrow> state \<Rightarrow> flow \<times> state" where
  "dispatch e a i [] s = (Next, s)"
| "dispatch e a i (r # rows) s =
     (case loop_body e a i r s of
        (Next, s1) \<Rightarrow> dispatch e a (Suc i) rows s1
      | stop \<Rightarrow> stop)"

text \<open>
  \<open>main\<close> after argument parsing. The result is \<open>None\<close> when \<open>main\<close> returns and the
  exception when one leaves it.
\<close>

definition main :: "env \<Rightarrow> args \<Rightarrow> exn option \<times> state" where
  "main e a =
     (let s0 = emit (Log INFO (lit ''Starting email run. dry_run=%s, send=%s'')
                       [VBool (dry_run a), VBool (send a)]) init
      in
      if send a \<and> \<not> (truthy (smtp_user a) \<and> truthy (smtp_pass a) \<and> truthy (from_email a)) then
        (None,
         emit (Print [VStr (lit ''Missing SMTP settings (SMTP_USER, SMTP_PASS, or FROM_EMAIL). Aborting.'')])
           (emit (Log ERROR (lit ''SMTP credentials or from-email not provided. Set --smtp-user --smtp-pass --from-email or env vars.'') [])
              s0))
      else
        (case read_csv e s0 (csv a) of
           (Inl x, s1) \<Rightarrow> (Some x, s1)
         | (Inr rows, s1) \<Rightarrow>
             if rows = [] then
               (None, emit (Print [VStr (lit ''No rows found in CSV. Aborting.'')]) s1)
             else
               (case dispatch e a 1 rows s1 of
                  (Next, s2) \<Rightarrow> (None, emit (Log INFO (lit ''Run complete.'') []) s2)
                | (Return, s2) \<Rightarrow> (None, s2)
                | (Raise x, s2) \<Rightarrow> (Some x, s2))))"

section \<open>Observations of a trace\<close>

text \<open>The messages of the SMTP attempts and the paths of the files read, in order.\<close>

definition attempts_of :: "event list \<Rightarrow> message list" where
  "attempts_of evs =
     concat (map (\<lambda>ev. case ev of SmtpSend h p u pw m \<Rightarrow> [m] | _ \<Rightarrow> []) evs)"

definition file_reads :: "event list \<Rightarrow> pystr list" where
  "file_reads evs = concat (map (\<lambda>ev. case ev of ReadFile p \<Rightarrow> [p] | _ \<Rightarrow> []) evs)"

section \<open>Sample inputs\<close>

text \<open>Concrete rows, arguments and environments on which the theorems below are run.\<close>

definition row_of :: "(string \<times> string) list \<Rightarrow> row" where
  "row_of kvs = map_of (map (\<lambda>(k, v). (lit k, lit v)) kvs)"

definition alice :: row where
  "alice = row_of [(''email'', ''alice@acme.io''), (''company'', ''Acme''),
                   (''role_preference'', ''frontend'')]"

definition blank :: row where
  "blank = row_of [(''email'', ''  ''), (''company'', ''Initech'')]"

definition carol :: row where
  "carol = row_of [(''email'', ''carol@corp.eu''), (''role_preference'', ''unknown-value''),
                   (''subject'', ''Hi C'')]"

definition dana :: row where
  "dana = row_of [(''email'', ''dana@acme.io''), (''company'', ''Acme''),
                  (''role_preference'', ''FRONT-END'')]"

definition erin :: row where
  "erin = row_of [(''email'', ''erin@corp.eu''), (''company'', ''Initech''),
                  (''role_preference'', ''backend''), (''subject'', ''  Re: {company} '')]"

definition demo_args :: args where
  "demo_args = \<lparr>csv = lit ''list.csv'', resume = lit ''cv.pdf'',
     from_email = Some (lit ''me@mail.org''), from_name = lit ''Ayush Chauhan'',
     smtp_host = lit ''smtp.gmail.com'', smtp_port = 587,
     smtp_user = Some (lit ''me@mail.org''), smtp_pass = Some (lit ''app-password''),
     delay = DEFAULT_DELAY_SECONDS, dry_run = False, send = True\<rparr>"

text \<open>
  An environment with the given rows in every CSV file, the resume present and never
  changing, a mailer that always fails, and an email library that accepts every value
  and stores it as it is (as the real one does for the values of the sample rows).
\<close>

definition demo_env :: "row list \<Rightarrow> env" where
  "demo_env rows = \<lparr>str_lower = ascii_lower, record_source = (\<lambda>p. Inr rows),
     path_exists = (\<lambda>t p. Inr (p = lit ''cv.pdf'')),
     read_bytes = (\<lambda>t p. if p = lit ''cv.pdf'' then Inr ''%PDF-1''
                          else Inl (FileNotFoundError (NoSuchFile p))),
     mailer = (\<lambda>n. False),
     lib_formataddr = (\<lambda>pair. Inr (fst pair @ lit '' <'' @ snd pair @ lit ''>'')),
     lib_set_header = (\<lambda>name v. Inr v),
     lib_set_content = (\<lambda>b. Inr b),
     lib_add_attachment = (\<lambda>d mt st fn. None),
     sleep_error = (\<lambda>d. if d < 0 then Some ValueError else None)\<rparr>"

definition demo_message :: message where
  "demo_message = \<lparr>msg_from = lit ''Ayush Chauhan <me@mail.org>'',
     msg_to = lit ''alice@acme.io'', msg_subject = lit ''Hello'', msg_content = lit ''Hi'',
     msg_attachment = \<lparr>data = ''%PDF-1'', maintype = lit ''application'',
       subtype = lit ''pdf'', filename = lit ''cv.pdf''\<rparr>\<rparr>"

text \<open>
  An environment in which the resume file is replaced after the first message has been
  built (the first two accesses find the old file), and the mailer always succeeds.
\<close>

definition changing_env :: env where
  "changing_env = (demo_env [alice, carol])\<lparr>
     read_bytes := (\<lambda>t p. if p = lit ''cv.pdf'' then Inr (if t < 2 then ''old'' else ''new'')
                           else Inl (FileNotFoundError (NoSuchFile p))),
     mailer := (\<lambda>n. True)\<rparr>"

section \<open>Basic facts\<close>

lemma strip_Nil_iff: "strip v = [] \<longleftrightarrow> (\<forall>c \<in> set v. isspace c)"
proof
  assume "strip v = []"
  then have spaces: "\<forall>c \<in> set (dropWhile isspace v). isspace c"
    by (simp add: strip_def dropWhile_eq_Nil_conv)
  have "dropWhile isspace v = []"
  proof (rule ccontr)
    assume ne: "dropWhile isspace v \<noteq> []"
    then have "\<not> isspace (hd (dropWhile isspace v))" by (rule hd_dropWhile)
    moreover have "hd (dropWhile isspace v) \<in> set (dropWhile isspace v)" using ne by simp
    ultimately show False using spaces by blast
  qed
  then show "\<forall>c \<in> set v. isspace c" by (simp add: dropWhile_eq_Nil_conv)
next
  assume "\<forall>c \<in> set v. isspace c"
  then have "dropWhile isspace v = []" by (simp add: dropWhile_eq_Nil_conv)
  then have "strip v = rev (dropWhile isspace (rev []))" by (simp only: strip_def)
  then show "strip v = []" by simp
qed

lemma to_email_of_Nil_iff:
  "to_email_of r = [] \<longleftrightarrow>
     (case r (lit ''email'') of None \<Rightarrow> True | Some v \<Rightarrow> \<forall>c \<in> set v. isspace c)"
  by (auto simp: to_email_of_def get_or_def strip_Nil_iff split: option.splits)

lemma dispatch_append:
  "dispatch e a i (xs @ ys) s =
     (case dispatch e a i xs s of
        (Next, s1) \<Rightarrow> dispatch e a (i + length xs) ys s1
      | stop \<Rightarrow> stop)"
  by (induction xs arbitrary: i s) (auto split: prod.splits flow.splits)

lemma pick_role_cases:
  "pick_role p = lit ''frontend'' \<or> pick_role p = lit ''backend'' \<or>
   pick_role p = lit ''software''"
  by (simp add: pick_role_def)

lemma TEMPLATES_frontend: "map_of TEMPLATES (lit ''frontend'') = Some frontend_template"
  by (simp add: TEMPLATES_def lit_def)

lemma TEMPLATES_backend: "map_of TEMPLATES (lit ''backend'') = Some backend_template"
  by (simp add: TEMPLATES_def lit_def)

lemma TEMPLATES_software: "map_of TEMPLATES (lit ''software'') = Some software_template"
  by (simp add: TEMPLATES_def lit_def)

lemma subject_shape:
  "t \<in> {frontend_template, backend_template, software_template} \<Longrightarrow>
     take 9 (subject t) = lit ''{company}'' \<and> 123 \<notin> set (drop 9 (subject t)) \<and>
     125 \<notin> set (drop 9 (subject t))"
  by (auto simp: frontend_template_def backend_template_def software_template_def lit_def)

lemma format_subject:
  "t \<in> {frontend_template, backend_template, software_template} \<Longrightarrow>
     format (subject t) [(lit ''company'', c)] = Inr (c @ drop 9 (subject t))"
  by (auto simp: format_def frontend_template_def backend_template_def software_template_def
      lit_def)

text \<open>
  The body patterns are \<open>Hi {contact_name}\<close>, a text, \<open>{company}\<close> and a text; rendering
  puts the two values in their places.
\<close>

lemma format_body_frontend:
  "format (body frontend_template) [(lit ''contact_name'', n), (lit ''company'', c)] =
     Inr (lit ''Hi '' @ n @ take 389 (drop 17 (body frontend_template)) @ c @
          drop 415 (body frontend_template))"
  by (simp add: format_def frontend_template_def lit_def)

lemma format_body_backend:
  "format (body backend_template) [(lit ''contact_name'', n), (lit ''company'', c)] =
     Inr (lit ''Hi '' @ n @ take 387 (drop 17 (body backend_template)) @ c @
          drop 413 (body backend_template))"
  by (simp add: format_def backend_template_def lit_def)

lemma format_body_software:
  "format (body software_template) [(lit ''contact_name'', n), (lit ''company'', c)] =
     Inr (lit ''Hi '' @ n @ take 377 (drop 17 (body software_template)) @ c @
          drop 403 (body software_template))"
  by (simp add: format_def software_template_def lit_def)

text \<open>Rendering never raises for a role that \<open>pick_role\<close> returns.\<close>

lemma render_pick_role:
  "\<exists>t b. map_of TEMPLATES (pick_role p) = Some t \<and>
     t \<in> {frontend_template, backend_template, software_template} \<and>
     render (pick_role p) c n so = Inr (if so \<noteq> [] then so else c @ drop 9 (subject t), b)"
  using pick_role_cases [of p]
  by (auto simp: render_def TEMPLATES_frontend TEMPLATES_backend TEMPLATES_software
      format_subject format_body_frontend format_body_backend format_body_software)

lemma company_of_default:
  "r (lit ''company'') = None \<or> r (lit ''company'') = Some [] \<Longrightarrow>
     company_of r = lit ''Company''"
  by (auto simp: company_of_def get_or_def strip_def isspace_def lit_def)

lemma contact_name_of_default:
  "r (lit ''contact_name'') = None \<or>
   (\<exists>v. r (lit ''contact_name'') = Some v \<and> (\<forall>c \<in> set v. isspace c)) \<Longrightarrow>
   contact_name_of r = lit ''Hiring Team''"
  by (auto simp: contact_name_of_def get_or_def strip_Nil_iff Let_def)

lemma send_smtp_unfold:
  "send_smtp e s host port user pass m = send_attempts e host port user pass m [1, 2, 3] s"
proof -
  have "[1..<MAX_RETRIES + 1] = [1, 2, 3]"
    by (simp add: MAX_RETRIES_def upt_rec)
  then show ?thesis by (simp only: send_smtp_def)
qed

lemma attempts_of_append [simp]: "attempts_of (xs @ ys) = attempts_of xs @ attempts_of ys"
  by (simp add: attempts_of_def)

lemma attempts_of_simps [simp]:
  "attempts_of [] = []"
  "attempts_of (SmtpSend h p u pw m # evs) = m # attempts_of evs"
  "attempts_of (Log l f vs # evs) = attempts_of evs"
  "attempts_of (LogException f vs # evs) = attempts_of evs"
  "attempts_of (Print vs # evs) = attempts_of evs"
  "attempts_of (Sleep d # evs) = attempts_of evs"
  "attempts_of (ReadCsv q # evs) = attempts_of evs"
  "attempts_of (PathExists q # evs) = attempts_of evs"
  "attempts_of (ReadFile q # evs) = attempts_of evs"
  by (simp_all add: attempts_of_def)

lemma file_reads_append [simp]: "file_reads (xs @ ys) = file_reads xs @ file_reads ys"
  by (simp add: file_reads_def)

lemma file_reads_simps [simp]:
  "file_reads [] = []"
  "file_reads (ReadFile q # evs) = q # file_reads evs"
  "file_reads (SmtpSend h p u pw m # evs) = file_reads evs"
  "file_reads (Log l f vs # evs) = file_reads evs"
  "file_reads (LogException f vs # evs) = file_reads evs"
  "file_reads (Print vs # evs) = file_reads evs"
  "file_reads (Sleep d # evs) = file_reads evs"
  "file_reads (ReadCsv q # evs) = file_reads evs"
  "file_reads (PathExists q # evs) = file_reads evs"
  by (simp_all add: file_reads_def)

lemma build_message_effect:
  assumes "build_message e s fn fe to sj b p = (res, s1)"
  shows "smtp_clock s1 = smtp_clock s \<and>
     (\<exists>evs. trace s1 = trace s @ evs \<and> attempts_of evs = [] \<and>
        (file_reads evs = [] \<or> file_reads evs = [path_str p]))"
  using assms
  by (auto simp: build_message_def attach_resume_def emit_def Let_def
      split: sum.splits option.splits if_splits prod.splits)

lemma build_message_built:
  assumes "build_message e s fn fe to sj b p = (Inr m, s1)"
  shows "trace s1 = trace s @ [PathExists (path_str p), ReadFile (path_str p)] \<and>
     fs_clock s1 = fs_clock s + 2 \<and> smtp_clock s1 = smtp_clock s \<and>
     read_bytes e (Suc (fs_clock s)) (path_str p) = Inr (data (msg_attachment m)) \<and>
     lib_set_header e (lit ''To'') to = Inr (msg_to m) \<and>
     lib_set_header e (lit ''Subject'') sj = Inr (msg_subject m) \<and>
     lib_set_content e b = Inr (msg_content m)"
  using assms
  by (auto simp: build_message_def set_headers_def attach_resume_def emit_def Let_def
      split: sum.splits option.splits if_splits prod.splits)

lemma send_attempts_effect:
  "send_attempts e h p u pw m ks s = (res, s1) \<Longrightarrow>
     fs_clock s1 = fs_clock s \<and>
     (\<exists>evs. trace s1 = trace s @ evs \<and> file_reads evs = [] \<and> set (attempts_of evs) \<subseteq> {m})"
proof (induction ks arbitrary: s)
  case Nil
  then show ?case by simp
next
  case (Cons k ks)
  show ?case
  proof (cases "mailer e (smtp_clock s)")
    case True
    with Cons.prems show ?thesis by (auto simp: emit_def Let_def)
  next
    case failed: False
    show ?thesis
    proof (cases "k < MAX_RETRIES")
      case True
      let ?s = "emit (Sleep (real (RETRY_BACKOFF * k)))
          (emit (LogException (lit ''Send attempt %s failed: %s'')
                   [VInt (int k), VExc TransportFailure])
             ((emit (SmtpSend h p u pw m) s)\<lparr>smtp_clock := smtp_clock s + 1\<rparr>))"
      from Cons.prems failed True have "send_attempts e h p u pw m ks ?s = (res, s1)"
        by (simp add: Let_def)
      from Cons.IH [OF this] obtain evs where
        "fs_clock s1 = fs_clock ?s" "trace s1 = trace ?s @ evs" "file_reads evs = []"
        "set (attempts_of evs) \<subseteq> {m}" by blast
      then show ?thesis by (auto simp: emit_def)
    next
      case False
      with Cons.prems failed show ?thesis by (auto simp: emit_def Let_def)
    qed
  qed
qed

lemma deliver_effect:
  assumes "deliver e a to m s = (f, s1)"
  shows "\<exists>evs. trace s1 = trace s @ evs \<and> file_reads evs = [] \<and>
     set (attempts_of evs) \<subseteq> {m}"
proof -
  obtain res s2 where sm: "send_smtp e s (smtp_host a) (smtp_port a) (smtp_user a)
      (smtp_pass a) m = (res, s2)"
    by (cases "send_smtp e s (smtp_host a) (smtp_port a) (smtp_user a) (smtp_pass a) m")
  from sm send_attempts_effect [of e "smtp_host a" "smtp_port a" "smtp_user a" "smtp_pass a"
      m "[1..<MAX_RETRIES + 1]" s res s2]
  obtain evs where "trace s2 = trace s @ evs" "file_reads evs = []"
    "set (attempts_of evs) \<subseteq> {m}" by (auto simp: send_smtp_def)
  with assms sm show ?thesis
    by (auto simp: deliver_def emit_def Let_def split: option.splits if_splits)
qed

text \<open>
  What the second half of the loop body does to the trace: it reads no file but the
  resume, once when it goes on to the next row; a message it hands to the mailer carries
  bytes that a reading of the resume returned; when it previews it makes no SMTP attempt.
\<close>

lemma build_and_route_effect:
  assumes "build_and_route e a to c sj b s = (f, s1)"
  shows "\<exists>evs. trace s1 = trace s @ evs \<and>
     (file_reads evs = [] \<or> file_reads evs = [path_str (resume a)]) \<and>
     (f = Next \<longrightarrow> file_reads evs = [path_str (resume a)]) \<and>
     (\<forall>m \<in> set (attempts_of evs).
        \<exists>t. read_bytes e t (path_str (resume a)) = Inr (data (msg_attachment m))) \<and>
     (dry_run a \<or> \<not> send a \<longrightarrow> attempts_of evs = [] \<and> smtp_clock s1 = smtp_clock s)"
proof -
  obtain res s2 where bm: "build_message e s (from_name a) (from_email a) to sj b (resume a) =
      (res, s2)"
    by (cases "build_message e s (from_name a) (from_email a) to sj b (resume a)")
  from build_message_effect [OF bm] obtain evs where
    built: "smtp_clock s2 = smtp_clock s" "trace s2 = trace s @ evs" "attempts_of evs = []"
      "file_reads evs = [] \<or> file_reads evs = [path_str (resume a)]"
    by blast
  show ?thesis
  proof (cases res)
    case (Inl x)
    with assms bm built show ?thesis
      by (cases x) (auto simp: build_and_route_def emit_def)
  next
    case (Inr m)
    from build_message_built [OF bm [unfolded Inr]] have
      full: "trace s2 = trace s @ [PathExists (path_str (resume a)), ReadFile (path_str (resume a))]"
        "read_bytes e (Suc (fs_clock s)) (path_str (resume a)) = Inr (data (msg_attachment m))"
        "smtp_clock s2 = smtp_clock s"
      by simp_all
    show ?thesis
    proof (cases "dry_run a \<or> \<not> send a")
      case True
      with assms bm Inr full show ?thesis
        by (auto simp: build_and_route_def preview_def)
    next
      case live: False
      with assms bm Inr have "deliver e a to m s2 = (f, s1)"
        by (simp add: build_and_route_def)
      from deliver_effect [OF this] obtain evs' where
        "trace s1 = trace s2 @ evs'" "file_reads evs' = []" "set (attempts_of evs') \<subseteq> {m}"
        by blast
      with full live show ?thesis
        by (intro exI [of _ "[PathExists (path_str (resume a)), ReadFile (path_str (resume a))] @ evs'"])
           auto
    qed
  qed
qed

lemma loop_body_resolved:
  assumes "to_email_of r \<noteq> []"
  shows "\<exists>sj b. render (pick_role (preferred_of e r)) (company_of r) (contact_name_of r)
        (subject_override_of r) = Inr (sj, b) \<and>
      loop_body e a i r s = build_and_route e a (to_email_of r) (company_of r) sj b s"
proof -
  obtain sj b where rd: "render (pick_role (preferred_of e r)) (company_of r)
      (contact_name_of r) (subject_override_of r) = Inr (sj, b)"
    using render_pick_role [of "preferred_of e r" "company_of r" "contact_name_of r"
        "subject_override_of r"] by blast
  with assms have "loop_body e a i r s =
      build_and_route e a (to_email_of r) (company_of r) sj b s"
    by (simp add: loop_body_def Let_def)
  with rd show ?thesis by blast
qed

lemma loop_body_effect:
  assumes "loop_body e a i r s = (f, s1)"
  shows "\<exists>evs. trace s1 = trace s @ evs \<and>
     (file_reads evs = [] \<or> file_reads evs = [path_str (resume a)]) \<and>
     (f = Next \<longrightarrow>
        file_reads evs = (if to_email_of r = [] then [] else [path_str (resume a)])) \<and>
     (\<forall>m \<in> set (attempts_of evs).
        \<exists>t. read_bytes e t (path_str (resume a)) = Inr (data (msg_attachment m))) \<and>
     (dry_run a \<or> \<not> send a \<longrightarrow> attempts_of evs = [] \<and> smtp_clock s1 = smtp_clock s)"
proof (cases "to_email_of r = []")
  case True
  with assms show ?thesis by (auto simp: loop_body_def emit_def)
next
  case False
  from loop_body_resolved [OF False, of e a i s] assms obtain sj b where
    "build_and_route e a (to_email_of r) (company_of r) sj b s = (f, s1)" by auto
  from build_and_route_effect [OF this] False show ?thesis by simp
qed

lemma dispatch_effect:
  "dispatch e a i rows s = (f, s1) \<Longrightarrow>
   \<exists>evs. trace s1 = trace s @ evs \<and>
     set (file_reads evs) \<subseteq> {path_str (resume a)} \<and>
     (f = Next \<longrightarrow>
        file_reads evs =
          replicate (length (filter (\<lambda>r. to_email_of r \<noteq> []) rows)) (path_str (resume a))) \<and>
     (\<forall>m \<in> set (attempts_of evs).
        \<exists>t. read_bytes e t (path_str (resume a)) = Inr (data (msg_attachment m))) \<and>
     (dry_run a \<or> \<not> send a \<longrightarrow> attempts_of evs = [] \<and> smtp_clock s1 = smtp_clock s)"
proof (induction rows arbitrary: i s)
  case Nil
  then show ?case by simp
next
  case (Cons r rows)
  obtain g s2 where lb: "loop_body e a i r s = (g, s2)" by (cases "loop_body e a i r s")
  from loop_body_effect [OF lb] obtain evs1 where
    one: "trace s2 = trace s @ evs1"
      "file_reads evs1 = [] \<or> file_reads evs1 = [path_str (resume a)]"
      "g = Next \<longrightarrow>
        file_reads evs1 = (if to_email_of r = [] then [] else [path_str (resume a)])"
      "\<forall>m \<in> set (attempts_of evs1).
        \<exists>t. read_bytes e t (path_str (resume a)) = Inr (data (msg_attachment m))"
      "dry_run a \<or> \<not> send a \<longrightarrow> attempts_of evs1 = [] \<and> smtp_clock s2 = smtp_clock s"
    by blast
  show ?case
  proof (cases "g = Next")
    case True
    with Cons.prems lb have "dispatch e a (Suc i) rows s2 = (f, s1)" by simp
    from Cons.IH [OF this] obtain evs2 where
      rest: "trace s1 = trace s2 @ evs2"
        "set (file_reads evs2) \<subseteq> {path_str (resume a)}"
        "f = Next \<longrightarrow> file_reads evs2 =
          replicate (length (filter (\<lambda>r. to_email_of r \<noteq> []) rows)) (path_str (resume a))"
        "\<forall>m \<in> set (attempts_of evs2).
          \<exists>t. read_bytes e t (path_str (resume a)) = Inr (data (msg_attachment m))"
        "dry_run a \<or> \<not> send a \<longrightarrow> attempts_of evs2 = [] \<and> smtp_clock s1 = smtp_clock s2"
      by blast
    have "trace s1 = trace s @ (evs1 @ evs2)" using one(1) rest(1) by simp
    moreover have "set (file_reads (evs1 @ evs2)) \<subseteq> {path_str (resume a)}"
      using one(2) rest(2) by auto
    moreover have "f = Next \<longrightarrow> file_reads (evs1 @ evs2) =
        replicate (length (filter (\<lambda>r. to_email_of r \<noteq> []) (r # rows))) (path_str (resume a))"
      using one(3) rest(3) True by simp
    moreover have "\<forall>m \<in> set (attempts_of (evs1 @ evs2)).
        \<exists>t. read_bytes e t (path_str (resume a)) = Inr (data (msg_attachment m))"
      using one(4) rest(4) by auto
    moreover have "dry_run a \<or> \<not> send a \<longrightarrow>
        attempts_of (evs1 @ evs2) = [] \<and> smtp_clock s1 = smtp_clock s"
      using one(5) rest(5) by auto
    ultimately show ?thesis by blast
  next
    case False
    with Cons.prems lb have "f = g" "s1 = s2" by (cases g; simp)+
    with False one show ?thesis by (intro exI [of _ evs1]) auto
  qed
qed

lemma main_proceed:
  assumes "\<not> (send a \<and>
      \<not> (truthy (smtp_user a) \<and> truthy (smtp_pass a) \<and> truthy (from_email a)))"
  shows "main e a =
    (case record_source e (csv a) of
       Inl x \<Rightarrow>
         (Some x,
          emit (ReadCsv (csv a))
            (emit (Log INFO (lit ''Starting email run. dry_run=%s, send=%s'')
               [VBool (dry_run a), VBool (send a)]) init))
     | Inr rows \<Rightarrow>
         if rows = [] then
           (None,
            emit (Print [VStr (lit ''No rows found in CSV. Aborting.'')])
              (emit (ReadCsv (csv a))
                 (emit (Log INFO (lit ''Starting email run. dry_run=%s, send=%s'')
                    [VBool (dry_run a), VBool (send a)]) init)))
         else
           (case dispatch e a 1 rows
                   (emit (ReadCsv (csv a))
                      (emit (Log INFO (lit ''Starting email run. dry_run=%s, send=%s'')
                         [VBool (dry_run a), VBool (send a)]) init)) of
              (Next, s2) \<Rightarrow> (None, emit (Log INFO (lit ''Run complete.'') []) s2)
            | (Return, s2) \<Rightarrow> (None, s2)
            | (Raise x, s2) \<Rightarrow> (Some x, s2)))"
proof -
  have "(send a \<and>
      \<not> (truthy (smtp_user a) \<and> truthy (smtp_pass a) \<and> truthy (from_email a))) = False"
    using assms by blast
  then show ?thesis
    unfolding main_def read_csv_def Let_def by (simp only: if_False prod.case)
qed






text \<open>The state in which the loop starts, and what a run adds to it.\<close>

lemma main_effect:
  assumes "\<not> (send a \<and>
      \<not> (truthy (smtp_user a) \<and> truthy (smtp_pass a) \<and> truthy (from_email a)))"
  shows "\<exists>evs. trace (snd (main e a)) =
       [Log INFO (lit ''Starting email run. dry_run=%s, send=%s'')
          [VBool (dry_run a), VBool (send a)], ReadCsv (csv a)] @ evs \<and>
     set (file_reads evs) \<subseteq> {path_str (resume a)} \<and>
     (\<forall>m \<in> set (attempts_of evs).
        \<exists>t. read_bytes e t (path_str (resume a)) = Inr (data (msg_attachment m))) \<and>
     (dry_run a \<or> \<not> send a \<longrightarrow> attempts_of evs = [] \<and> smtp_clock (snd (main e a)) = 0)"
proof -
  let ?s = "emit (ReadCsv (csv a))
      (emit (Log INFO (lit ''Starting email run. dry_run=%s, send=%s'')
         [VBool (dry_run a), VBool (send a)]) init)"
  have start: "trace ?s = [Log INFO (lit ''Starting email run. dry_run=%s, send=%s'')
          [VBool (dry_run a), VBool (send a)], ReadCsv (csv a)]" "smtp_clock ?s = 0"
    by (simp_all add: emit_def init_def)
  show ?thesis
  proof (cases "record_source e (csv a)")
    case (Inl x)
    then have "snd (main e a) = ?s" by (simp add: main_proceed [OF assms])
    with start show ?thesis by simp
  next
    case (Inr rows)
    show ?thesis
    proof (cases "rows = []")
      case True
      with Inr have "snd (main e a) =
          emit (Print [VStr (lit ''No rows found in CSV. Aborting.'')]) ?s"
        by (simp add: main_proceed [OF assms])
      then show ?thesis by (simp add: emit_def init_def)
    next
      case False
      obtain f s2 where d: "dispatch e a 1 rows ?s = (f, s2)"
        by (cases "dispatch e a 1 rows ?s")
      from dispatch_effect [OF d] obtain evs where
        run: "trace s2 = trace ?s @ evs" "set (file_reads evs) \<subseteq> {path_str (resume a)}"
          "\<forall>m \<in> set (attempts_of evs).
             \<exists>t. read_bytes e t (path_str (resume a)) = Inr (data (msg_attachment m))"
          "dry_run a \<or> \<not> send a \<longrightarrow> attempts_of evs = [] \<and> smtp_clock s2 = smtp_clock ?s"
        by blast
      from Inr False d have "snd (main e a) = s2 \<or>
          snd (main e a) = emit (Log INFO (lit ''Run complete.'') []) s2"
        by (cases f) (simp_all add: main_proceed [OF assms])
      then show ?thesis
      proof
        assume "snd (main e a) = s2"
        with run start show ?thesis by (intro exI [of _ evs]) simp
      next
        assume "snd (main e a) = emit (Log INFO (lit ''Run complete.'') []) s2"
        with run start show ?thesis
          by (intro exI [of _ "evs @ [Log INFO (lit ''Run complete.'') []]"])
             (simp add: emit_def)
      qed
    qed
  qed
qed

lemma main_complete_reads:
  assumes "\<not> (send a \<and>
      \<not> (truthy (smtp_user a) \<and> truthy (smtp_pass a) \<and> truthy (from_email a)))"
    and "record_source e (csv a) = Inr rows"
    and "dispatch e a 1 rows
           (emit (ReadCsv (csv a))
              (emit (Log INFO (lit ''Starting email run. dry_run=%s, send=%s'')
                 [VBool (dry_run a), VBool (send a)]) init)) = (Next, s2)"
  shows "file_reads (trace (snd (main e a))) =
     replicate (length (filter (\<lambda>r. to_email_of r \<noteq> []) rows)) (path_str (resume a))"
proof (cases "rows = []")
  case True
  with assms(2) show ?thesis
    by (simp add: main_proceed [OF assms(1)] emit_def init_def)
next
  case False
  from dispatch_effect [OF assms(3)] obtain evs where
    "trace s2 = trace (emit (ReadCsv (csv a))
              (emit (Log INFO (lit ''Starting email run. dry_run=%s, send=%s'')
                 [VBool (dry_run a), VBool (send a)]) init)) @ evs"
    "file_reads evs =
       replicate (length (filter (\<lambda>r. to_email_of r \<noteq> []) rows)) (path_str (resume a))"
    by blast
  moreover from assms(2,3) False
  have "snd (main e a) = emit (Log INFO (lit ''Run complete.'') []) s2"
    by (simp add: main_proceed [OF assms(1)])
  ultimately show ?thesis by (simp add: emit_def init_def)
qed

text \<open>The run goes through each row's pass of the loop body: its trace extends it.\<close>

lemma main_extends_row:
  assumes "\<not> (send a \<and>
      \<not> (truthy (smtp_user a) \<and> truthy (smtp_pass a) \<and> truthy (from_email a)))"
    and "record_source e (csv a) = Inr (pre @ r # post)"
    and "dispatch e a 1 pre
           (emit (ReadCsv (csv a))
              (emit (Log INFO (lit ''Starting email run. dry_run=%s, send=%s'')
                 [VBool (dry_run a), VBool (send a)]) init)) = (Next, s1)"
  shows "\<exists>evs. trace (snd (main e a)) =
     trace (snd (loop_body e a (Suc (length pre)) r s1)) @ evs"
proof -
  let ?s = "emit (ReadCsv (csv a))
      (emit (Log INFO (lit ''Starting email run. dry_run=%s, send=%s'')
         [VBool (dry_run a), VBool (send a)]) init)"
  obtain g s2 where lb: "loop_body e a (Suc (length pre)) r s1 = (g, s2)"
    by (cases "loop_body e a (Suc (length pre)) r s1")
  obtain f s3 where d: "dispatch e a 1 (pre @ r # post) ?s = (f, s3)"
    by (cases "dispatch e a 1 (pre @ r # post) ?s")
  have "\<exists>evs. trace s3 = trace s2 @ evs"
  proof (cases "g = Next")
    case True
    with d lb assms(3) have "dispatch e a (Suc (Suc (length pre))) post s2 = (f, s3)"
      by (simp add: dispatch_append)
    from dispatch_effect [OF this] show ?thesis by blast
  next
    case False
    with d lb assms(3) have "s3 = s2" by (cases g) (simp_all add: dispatch_append)
    then show ?thesis by simp
  qed
  then obtain evs where ext: "trace s3 = trace s2 @ evs" by blast
  from assms(2) d have "snd (main e a) = s3 \<or>
      snd (main e a) = emit (Log INFO (lit ''Run complete.'') []) s3"
    by (cases f) (simp_all add: main_proceed [OF assms(1)])
  with ext lb show ?thesis by (auto simp: emit_def)
qed

lemma loop_body_build_failure:
  assumes "to_email_of r \<noteq> []"
    and "render (pick_role (preferred_of e r)) (company_of r) (contact_name_of r)
           (subject_override_of r) = Inr (sj, b)"
    and "build_message e s (from_name a) (from_email a) (to_email_of r) sj b (resume a) =
           (Inl (FileNotFoundError fe), s1)"
  shows "loop_body e a i r s =
     (Return,
      emit (Print [VExc (FileNotFoundError fe)])
        (emit (Log ERROR (lit ''Resume file error: %s'') [VExc (FileNotFoundError fe)]) s1))"
  using assms by (simp add: loop_body_def build_and_route_def Let_def)

text \<open>Building and routing on the sample environment, and when a build succeeds.\<close>

lemma build_message_demo:
  "build_message (demo_env rows) s fn (Some addr) to sj b (lit ''cv.pdf'') =
     (Inr \<lparr>msg_from = fn @ lit '' <'' @ addr @ lit ''>'', msg_to = to, msg_subject = sj,
           msg_content = b,
           msg_attachment = \<lparr>data = ''%PDF-1'', maintype = lit ''application'',
             subtype = lit ''pdf'', filename = lit ''cv.pdf''\<rparr>\<rparr>,
      s\<lparr>trace := trace s @ [PathExists (lit ''cv.pdf''), ReadFile (lit ''cv.pdf'')],
        fs_clock := fs_clock s + 2\<rparr>)"
proof -
  have path: "path_str (lit ''cv.pdf'') = lit ''cv.pdf''" "path_name (lit ''cv.pdf'') = lit ''cv.pdf''"
    by (simp_all add: path_str_def path_name_def path_root_def path_parts_def lit_def)
  show ?thesis
    by (simp add: build_message_def set_headers_def attach_resume_def formataddr_def path
        demo_env_def emit_def Let_def)
qed

lemma build_and_route_preview:
  assumes "dry_run a \<or> \<not> send a"
    and "build_message e s (from_name a) (from_email a) to sj b (resume a) = (Inr m, s1)"
  shows "build_and_route e a to c sj b s = (Next, preview a to c sj b s1)"
  using assms by (simp add: build_and_route_def)

lemma build_and_route_deliver:
  assumes "\<not> (dry_run a \<or> \<not> send a)"
    and "build_message e s (from_name a) (from_email a) to sj b (resume a) = (Inr m, s1)"
  shows "build_and_route e a to c sj b s = deliver e a to m s1"
  using assms by (simp add: build_and_route_def)

lemma deliver_first_try:
  assumes "mailer e (smtp_clock s)" and "sleep_error e (delay a) = None"
  shows "deliver e a to m s =
     (Next,
      s\<lparr>trace := trace s @
          [SmtpSend (smtp_host a) (smtp_port a) (smtp_user a) (smtp_pass a) m,
           Log INFO (lit ''Sent to %s'') [VStr to],
           Sleep (delay a)],
        smtp_clock := smtp_clock s + 1\<rparr>)"
  using assms by (simp add: deliver_def send_smtp_unfold emit_def Let_def)

lemma deliver_continues:
  assumes "sleep_error e (delay a) = None"
  shows "\<exists>s1. deliver e a to m s = (Next, s1)"
  using assms by (simp add: deliver_def Let_def split: prod.splits)

lemma preview_subject_line:
  "Print [VStr (lit ''Subject: '' @ sj)] \<in> set (trace (preview a to c sj b s))"
  by (simp add: preview_def)

lemma build_message_changing:
  "build_message changing_env s fn (Some addr) to sj b (lit ''cv.pdf'') =
     (Inr \<lparr>msg_from = fn @ lit '' <'' @ addr @ lit ''>'', msg_to = to, msg_subject = sj,
           msg_content = b,
           msg_attachment = \<lparr>data = (if fs_clock s = 0 then ''old'' else ''new''),
             maintype = lit ''application'', subtype = lit ''pdf'',
             filename = lit ''cv.pdf''\<rparr>\<rparr>,
      s\<lparr>trace := trace s @ [PathExists (lit ''cv.pdf''), ReadFile (lit ''cv.pdf'')],
        fs_clock := fs_clock s + 2\<rparr>)"
proof -
  have path: "path_str (lit ''cv.pdf'') = lit ''cv.pdf''" "path_name (lit ''cv.pdf'') = lit ''cv.pdf''"
    by (simp_all add: path_str_def path_name_def path_root_def path_parts_def lit_def)
  show ?thesis
    by (simp add: build_message_def set_headers_def attach_resume_def formataddr_def path
        changing_env_def demo_env_def emit_def Let_def)
qed

lemma loop_body_demo_continues:
  assumes "from_email a = Some addr" and "resume a = lit ''cv.pdf''" and "0 \<le> delay a"
  shows "\<exists>s1. loop_body (demo_env rs) a i r s = (Next, s1)"
proof (cases "to_email_of r = []")
  case True
  then show ?thesis by (simp add: loop_body_def Let_def)
next
  case False
  from loop_body_resolved [OF False] obtain sj b where
    lb: "loop_body (demo_env rs) a i r s =
        build_and_route (demo_env rs) a (to_email_of r) (company_of r) sj b s"
    by blast
  have quiet: "sleep_error (demo_env rs) (delay a) = None"
    using assms(3) by (simp add: demo_env_def)
  show ?thesis
  proof (cases "dry_run a \<or> \<not> send a")
    case True
    from build_and_route_preview [OF True] show ?thesis
      unfolding lb by (simp only: assms build_message_demo) blast
  next
    case False
    from deliver_continues [OF quiet] build_and_route_deliver [OF False] show ?thesis
      unfolding lb by (simp only: assms build_message_demo)
  qed
qed

lemma dispatch_demo_continues:
  assumes "from_email a = Some addr" and "resume a = lit ''cv.pdf''" and "0 \<le> delay a"
  shows "\<exists>s1. dispatch (demo_env rs) a i rows s = (Next, s1)"
proof (induction rows arbitrary: i s)
  case Nil
  show ?case by simp
next
  case (Cons r rows)
  from loop_body_demo_continues [OF assms] obtain s1 where
    "loop_body (demo_env rs) a i r s = (Next, s1)" by blast
  with Cons [of "Suc i" s1] show ?case by simp
qed

section \<open>Rows without an email address\<close>

text \<open>
  C3. A row whose \<open>email\<close> field is absent, empty or made of whitespace only is skipped:
  the loop body does nothing but log the warning "Row i missing email, skipping" (no
  file-system access, no SMTP attempt, nothing printed), and the loop goes on with the
  next row.
\<close>

theorem missing_email_skipped:
  assumes "r (lit ''email'') = None \<or>
           (\<exists>v. r (lit ''email'') = Some v \<and> (\<forall>c \<in> set v. isspace c))"
  shows "loop_body e a i r s =
           (Next, emit (Log WARNING (lit ''Row %d missing email, skipping'') [VInt (int i)]) s)
         \<and> dispatch e a i (r # rows) s =
             dispatch e a (Suc i) rows
               (emit (Log WARNING (lit ''Row %d missing email, skipping'') [VInt (int i)]) s)"
proof -
  from assms have "to_email_of r = []"
    by (auto simp: to_email_of_Nil_iff)
  then have "loop_body e a i r s =
           (Next, emit (Log WARNING (lit ''Row %d missing email, skipping'') [VInt (int i)]) s)"
    by (simp add: loop_body_def Let_def)
  then show ?thesis by simp
qed

theorem missing_email_skipped_witness:
  "(blank (lit ''email'') = None \<or>
    (\<exists>v. blank (lit ''email'') = Some v \<and> (\<forall>c \<in> set v. isspace c)))
   \<and> loop_body (demo_env [alice, blank, carol]) demo_args 2 blank init =
       (Next, \<lparr>trace = [Log WARNING (lit ''Row %d missing email, skipping'') [VInt 2]],
               fs_clock = 0, smtp_clock = 0\<rparr>)"
proof -
  have h: "blank (lit ''email'') = None \<or>
           (\<exists>v. blank (lit ''email'') = Some v \<and> (\<forall>c \<in> set v. isspace c))"
    by (simp add: blank_def row_of_def lit_def isspace_def)
  show ?thesis
    using h missing_email_skipped [of blank "demo_env [alice, blank, carol]" demo_args 2 init "[]"]
    by (simp add: emit_def init_def)
qed

section \<open>Role and subject\<close>

text \<open>
  C4. The role that the loop uses for a row is computed from the trimmed, lowercased
  \<open>role_preference\<close> field alone: \<open>frontend\<close>, \<open>front-end\<close> and \<open>ui\<close> give the role
  \<open>frontend\<close>; \<open>backend\<close> and \<open>back-end\<close> give \<open>backend\<close>; every other string gives
  \<open>software\<close>, and the role always has a template. For a row with an email address the
  loop body builds and routes the message with the subject and body rendered from the
  template of that role, and a run that reaches the row goes through this. With ASCII
  lowercasing, \<open>FRONT-END\<close> and \<open> UI \<close> resolve to \<open>frontend\<close>, \<open>Backend\<close> to \<open>backend\<close>,
  and the empty, the missing and an unknown preference to \<open>software\<close>.
\<close>

theorem role_resolution:
  assumes "to_email_of r \<noteq> []"
  shows "preferred_of e r =
     str_lower e (strip (case r (lit ''role_preference'') of None \<Rightarrow> [] | Some v \<Rightarrow> v))
   \<and> pick_role p =
       (if p = lit ''frontend'' \<or> p = lit ''front-end'' \<or> p = lit ''ui'' then lit ''frontend''
        else if p = lit ''backend'' \<or> p = lit ''back-end'' then lit ''backend''
        else lit ''software'')
   \<and> map_of TEMPLATES (pick_role p) \<noteq> None
   \<and> (\<exists>sj b.
        render
          (if preferred_of e r = lit ''frontend'' \<or> preferred_of e r = lit ''front-end'' \<or>
              preferred_of e r = lit ''ui'' then lit ''frontend''
           else if preferred_of e r = lit ''backend'' \<or> preferred_of e r = lit ''back-end''
           then lit ''backend''
           else lit ''software'')
          (company_of r) (contact_name_of r) (subject_override_of r) = Inr (sj, b)
        \<and> (\<forall>i s. loop_body e a i r s =
              build_and_route e a (to_email_of r) (company_of r) sj b s)
        \<and> (\<forall>pre post s1.
              \<not> (send a \<and> \<not> (truthy (smtp_user a) \<and> truthy (smtp_pass a) \<and>
                   truthy (from_email a))) \<and>
              record_source e (csv a) = Inr (pre @ r # post) \<and>
              dispatch e a 1 pre
                (emit (ReadCsv (csv a))
                   (emit (Log INFO (lit ''Starting email run. dry_run=%s, send=%s'')
                      [VBool (dry_run a), VBool (send a)]) init)) = (Next, s1) \<longrightarrow>
              (\<exists>evs. trace (snd (main e a)) =
                 trace (snd (build_and_route e a (to_email_of r) (company_of r) sj b s1))
                 @ evs)))
   \<and> pick_role (preferred_of (demo_env []) (row_of [(''role_preference'', ''FRONT-END'')])) =
       lit ''frontend''
   \<and> pick_role (preferred_of (demo_env []) (row_of [(''role_preference'', '' UI  '')])) =
       lit ''frontend''
   \<and> pick_role (preferred_of (demo_env []) (row_of [(''role_preference'', ''Backend'')])) =
       lit ''backend''
   \<and> pick_role (preferred_of (demo_env []) (row_of [(''role_preference'', [])])) =
       lit ''software''
   \<and> pick_role (preferred_of (demo_env []) (row_of [])) = lit ''software''
   \<and> pick_role (preferred_of (demo_env []) (row_of [(''role_preference'', ''unknown-value'')])) =
       lit ''software''"
proof -
  have field: "preferred_of e r =
      str_lower e (strip (case r (lit ''role_preference'') of None \<Rightarrow> [] | Some v \<Rightarrow> v))"
    by (simp add: preferred_of_def get_or_def split: option.splits)
  have choice: "pick_role p =
       (if p = lit ''frontend'' \<or> p = lit ''front-end'' \<or> p = lit ''ui'' then lit ''frontend''
        else if p = lit ''backend'' \<or> p = lit ''back-end'' then lit ''backend''
        else lit ''software'')" for p
    by (simp add: pick_role_def)
  have total: "map_of TEMPLATES (pick_role p) \<noteq> None"
    using render_pick_role [of p "[]" "[]" "[]"] by auto
  obtain sj b where rd: "render (pick_role (preferred_of e r)) (company_of r)
        (contact_name_of r) (subject_override_of r) = Inr (sj, b)"
    using render_pick_role [of "preferred_of e r" "company_of r" "contact_name_of r"
        "subject_override_of r"] by blast
  have lb: "loop_body e a i r s =
      build_and_route e a (to_email_of r) (company_of r) sj b s" for i s
    using assms rd by (simp add: loop_body_def Let_def)
  have run: "\<exists>evs. trace (snd (main e a)) =
      trace (snd (build_and_route e a (to_email_of r) (company_of r) sj b s1)) @ evs"
    if "\<not> (send a \<and> \<not> (truthy (smtp_user a) \<and> truthy (smtp_pass a) \<and>
           truthy (from_email a)))"
      and "record_source e (csv a) = Inr (pre @ r # post)"
      and "dispatch e a 1 pre
             (emit (ReadCsv (csv a))
                (emit (Log INFO (lit ''Starting email run. dry_run=%s, send=%s'')
                   [VBool (dry_run a), VBool (send a)]) init)) = (Next, s1)"
    for pre post s1
    using main_extends_row [OF that] by (simp add: lb)
  have examples:
    "pick_role (preferred_of (demo_env []) (row_of [(''role_preference'', ''FRONT-END'')])) =
       lit ''frontend''"
    "pick_role (preferred_of (demo_env []) (row_of [(''role_preference'', '' UI  '')])) =
       lit ''frontend''"
    "pick_role (preferred_of (demo_env []) (row_of [(''role_preference'', ''Backend'')])) =
       lit ''backend''"
    "pick_role (preferred_of (demo_env []) (row_of [(''role_preference'', [])])) =
       lit ''software''"
    "pick_role (preferred_of (demo_env []) (row_of [])) = lit ''software''"
    "pick_role (preferred_of (demo_env []) (row_of [(''role_preference'', ''unknown-value'')])) =
       lit ''software''"
    by (simp_all add: pick_role_def preferred_of_def demo_env_def row_of_def get_or_def
        strip_def ascii_lower_def isspace_def lit_def)
  have resolved: "\<exists>sj b.
        render
          (if preferred_of e r = lit ''frontend'' \<or> preferred_of e r = lit ''front-end'' \<or>
              preferred_of e r = lit ''ui'' then lit ''frontend''
           else if preferred_of e r = lit ''backend'' \<or> preferred_of e r = lit ''back-end''
           then lit ''backend''
           else lit ''software'')
          (company_of r) (contact_name_of r) (subject_override_of r) = Inr (sj, b)
        \<and> (\<forall>i s. loop_body e a i r s =
              build_and_route e a (to_email_of r) (company_of r) sj b s)
        \<and> (\<forall>pre post s1.
              \<not> (send a \<and> \<not> (truthy (smtp_user a) \<and> truthy (smtp_pass a) \<and>
                   truthy (from_email a))) \<and>
              record_source e (csv a) = Inr (pre @ r # post) \<and>
              dispatch e a 1 pre
                (emit (ReadCsv (csv a))
                   (emit (Log INFO (lit ''Starting email run. dry_run=%s, send=%s'')
                      [VBool (dry_run a), VBool (send a)]) init)) = (Next, s1) \<longrightarrow>
              (\<exists>evs. trace (snd (main e a)) =
                 trace (snd (build_and_route e a (to_email_of r) (company_of r) sj b s1))
                 @ evs))"
    using rd lb run unfolding choice [of "preferred_of e r", symmetric] by blast
  from field choice [of p] total resolved examples show ?thesis by blast
qed

theorem role_resolution_witness:
  "Print [VStr (lit ''Subject: Acme '' @ [8212] @ lit '' Frontend Engineer Application '' @
                [8212] @ lit '' Ayush Chauhan'')]
     \<in> set (trace (snd (loop_body (demo_env [dana]) (demo_args\<lparr>dry_run := True\<rparr>) 1 dana init)))"
proof -
  let ?e = "demo_env [dana]"
  let ?a = "demo_args\<lparr>dry_run := True\<rparr>"
  have email: "to_email_of dana \<noteq> []"
    by (simp add: to_email_of_def dana_def row_of_def get_or_def strip_def isspace_def lit_def)
  have pref: "preferred_of ?e dana = lit ''front-end''"
    by (simp add: preferred_of_def dana_def demo_env_def row_of_def get_or_def strip_def
        ascii_lower_def isspace_def lit_def)
  have fields: "company_of dana = lit ''Acme''" "subject_override_of dana = []"
    by (simp_all add: company_of_def subject_override_of_def dana_def row_of_def get_or_def
        strip_def isspace_def lit_def)
  have role: "(if preferred_of ?e dana = lit ''frontend'' \<or>
         preferred_of ?e dana = lit ''front-end'' \<or> preferred_of ?e dana = lit ''ui''
       then lit ''frontend''
       else if preferred_of ?e dana = lit ''backend'' \<or> preferred_of ?e dana = lit ''back-end''
       then lit ''backend'' else lit ''software'') = lit ''frontend''"
    by (simp add: pref)
  from role_resolution [OF email, of ?e "[]" ?a] obtain sj b where
    rd: "render (lit ''frontend'') (company_of dana) (contact_name_of dana)
           (subject_override_of dana) = Inr (sj, b)"
    and lb: "loop_body ?e ?a 1 dana init =
           build_and_route ?e ?a (to_email_of dana) (company_of dana) sj b init"
    unfolding role by blast
  from rd have "sj = lit ''Acme'' @ drop 9 (subject frontend_template)"
    by (simp add: render_def TEMPLATES_frontend format_subject format_body_frontend fields)
  then have sj: "lit ''Subject: '' @ sj =
      lit ''Subject: Acme '' @ [8212] @ lit '' Frontend Engineer Application '' @
        [8212] @ lit '' Ayush Chauhan''"
    by (simp add: frontend_template_def lit_def)
  have args: "from_email ?a = Some (lit ''me@mail.org'')" "resume ?a = lit ''cv.pdf''"
      "dry_run ?a \<or> \<not> send ?a"
    by (simp_all add: demo_args_def)
  have "build_and_route ?e ?a (to_email_of dana) (company_of dana) sj b init =
      (Next, preview ?a (to_email_of dana) (company_of dana) sj b
         (init\<lparr>trace := trace init @ [PathExists (lit ''cv.pdf''), ReadFile (lit ''cv.pdf'')],
               fs_clock := fs_clock init + 2\<rparr>))"
    by (rule build_and_route_preview [OF args(3)])
       (simp only: args build_message_demo)
  with lb preview_subject_line [of sj ?a] show ?thesis
    by (simp only: snd_conv sj [symmetric])
qed

text \<open>
  C5. For a row with an email address, the subject with which the loop builds and routes
  the message is the trimmed \<open>subject\<close> field itself when that is not empty, whatever
  the role and the company (no placeholder is substituted in it); otherwise it is the
  subject pattern of the role's template, which is \<open>{company}\<close> followed by a text
  without braces, with the company in the place of \<open>{company}\<close>. This subject is the
  value given to the \<open>Subject\<close> header of the message, the one printed in a preview
  and the one of the message delivered, and a run that reaches the row goes through
  this.
\<close>

theorem subject_resolution:
  assumes "to_email_of r \<noteq> []"
  shows "subject_override_of r =
     strip (case r (lit ''subject'') of None \<Rightarrow> [] | Some v \<Rightarrow> v)
   \<and> (\<exists>t sj b. map_of TEMPLATES (pick_role (preferred_of e r)) = Some t
        \<and> take 9 (subject t) = lit ''{company}''
        \<and> 123 \<notin> set (drop 9 (subject t)) \<and> 125 \<notin> set (drop 9 (subject t))
        \<and> sj = (if subject_override_of r \<noteq> [] then subject_override_of r
                 else company_of r @ drop 9 (subject t))
        \<and> (\<forall>i s. loop_body e a i r s =
              build_and_route e a (to_email_of r) (company_of r) sj b s)
        \<and> (\<forall>s m s1.
              build_message e s (from_name a) (from_email a) (to_email_of r) sj b (resume a) =
                (Inr m, s1) \<longrightarrow>
              lib_set_header e (lit ''Subject'') sj = Inr (msg_subject m) \<and>
              (dry_run a \<or> \<not> send a \<longrightarrow>
                 build_and_route e a (to_email_of r) (company_of r) sj b s =
                   (Next, preview a (to_email_of r) (company_of r) sj b s1) \<and>
                 Print [VStr (lit ''Subject: '' @ sj)] \<in>
                   set (trace (preview a (to_email_of r) (company_of r) sj b s1))) \<and>
              (\<not> (dry_run a \<or> \<not> send a) \<longrightarrow>
                 build_and_route e a (to_email_of r) (company_of r) sj b s =
                   deliver e a (to_email_of r) m s1))
        \<and> (\<forall>pre post s1.
              \<not> (send a \<and> \<not> (truthy (smtp_user a) \<and> truthy (smtp_pass a) \<and>
                   truthy (from_email a))) \<and>
              record_source e (csv a) = Inr (pre @ r # post) \<and>
              dispatch e a 1 pre
                (emit (ReadCsv (csv a))
                   (emit (Log INFO (lit ''Starting email run. dry_run=%s, send=%s'')
                      [VBool (dry_run a), VBool (send a)]) init)) = (Next, s1) \<longrightarrow>
              (\<exists>evs. trace (snd (main e a)) =
                 trace (snd (build_and_route e a (to_email_of r) (company_of r) sj b s1))
                 @ evs)))"
proof -
  have field: "subject_override_of r =
      strip (case r (lit ''subject'') of None \<Rightarrow> [] | Some v \<Rightarrow> v)"
    by (simp add: subject_override_of_def get_or_def split: option.splits)
  obtain t b where t: "map_of TEMPLATES (pick_role (preferred_of e r)) = Some t"
      "t \<in> {frontend_template, backend_template, software_template}"
      "render (pick_role (preferred_of e r)) (company_of r) (contact_name_of r)
         (subject_override_of r) =
         Inr (if subject_override_of r \<noteq> [] then subject_override_of r
              else company_of r @ drop 9 (subject t), b)"
    using render_pick_role [of "preferred_of e r" "company_of r" "contact_name_of r"
        "subject_override_of r"] by blast
  define sj where "sj = (if subject_override_of r \<noteq> [] then subject_override_of r
      else company_of r @ drop 9 (subject t))"
  have rd: "render (pick_role (preferred_of e r)) (company_of r) (contact_name_of r)
      (subject_override_of r) = Inr (sj, b)"
    using t(3) by (simp only: sj_def)
  have lb: "loop_body e a i r s =
      build_and_route e a (to_email_of r) (company_of r) sj b s" for i s
    using assms rd by (simp add: loop_body_def Let_def)
  have routed: "lib_set_header e (lit ''Subject'') sj = Inr (msg_subject m) \<and>
      (dry_run a \<or> \<not> send a \<longrightarrow>
         build_and_route e a (to_email_of r) (company_of r) sj b s =
           (Next, preview a (to_email_of r) (company_of r) sj b s1) \<and>
         Print [VStr (lit ''Subject: '' @ sj)] \<in>
           set (trace (preview a (to_email_of r) (company_of r) sj b s1))) \<and>
      (\<not> (dry_run a \<or> \<not> send a) \<longrightarrow>
         build_and_route e a (to_email_of r) (company_of r) sj b s =
           deliver e a (to_email_of r) m s1)"
    if "build_message e s (from_name a) (from_email a) (to_email_of r) sj b (resume a) =
          (Inr m, s1)" for s m s1
    using build_message_built [OF that] build_and_route_preview [OF _ that]
      build_and_route_deliver [OF _ that] preview_subject_line
    by blast
  have run: "\<exists>evs. trace (snd (main e a)) =
      trace (snd (build_and_route e a (to_email_of r) (company_of r) sj b s1)) @ evs"
    if "\<not> (send a \<and> \<not> (truthy (smtp_user a) \<and> truthy (smtp_pass a) \<and>
           truthy (from_email a)))"
      and "record_source e (csv a) = Inr (pre @ r # post)"
      and "dispatch e a 1 pre
             (emit (ReadCsv (csv a))
                (emit (Log INFO (lit ''Starting email run. dry_run=%s, send=%s'')
                   [VBool (dry_run a), VBool (send a)]) init)) = (Next, s1)"
    for pre post s1
    using main_extends_row [OF that] by (simp add: lb)
  have "map_of TEMPLATES (pick_role (preferred_of e r)) = Some t
        \<and> take 9 (subject t) = lit ''{company}''
        \<and> 123 \<notin> set (drop 9 (subject t)) \<and> 125 \<notin> set (drop 9 (subject t))
        \<and> sj = (if subject_override_of r \<noteq> [] then subject_override_of r
                 else company_of r @ drop 9 (subject t))
        \<and> (\<forall>i s. loop_body e a i r s =
              build_and_route e a (to_email_of r) (company_of r) sj b s)
        \<and> (\<forall>s m s1.
              build_message e s (from_name a) (from_email a) (to_email_of r) sj b (resume a) =
                (Inr m, s1) \<longrightarrow>
              lib_set_header e (lit ''Subject'') sj = Inr (msg_subject m) \<and>
              (dry_run a \<or> \<not> send a \<longrightarrow>
                 build_and_route e a (to_email_of r) (company_of r) sj b s =
                   (Next, preview a (to_email_of r) (company_of r) sj b s1) \<and>
                 Print [VStr (lit ''Subject: '' @ sj)] \<in>
                   set (trace (preview a (to_email_of r) (company_of r) sj b s1))) \<and>
              (\<not> (dry_run a \<or> \<not> send a) \<longrightarrow>
                 build_and_route e a (to_email_of r) (company_of r) sj b s =
                   deliver e a (to_email_of r) m s1))
        \<and> (\<forall>pre post s1.
              \<not> (send a \<and> \<not> (truthy (smtp_user a) \<and> truthy (smtp_pass a) \<and>
                   truthy (from_email a))) \<and>
              record_source e (csv a) = Inr (pre @ r # post) \<and>
              dispatch e a 1 pre
                (emit (ReadCsv (csv a))
                   (emit (Log INFO (lit ''Starting email run. dry_run=%s, send=%s'')
                      [VBool (dry_run a), VBool (send a)]) init)) = (Next, s1) \<longrightarrow>
              (\<exists>evs. trace (snd (main e a)) =
                 trace (snd (build_and_route e a (to_email_of r) (company_of r) sj b s1))
                 @ evs))"
    using t(1) subject_shape [OF t(2)] sj_def lb routed run by blast
  with field show ?thesis by blast
qed

theorem subject_resolution_witness:
  "Print [VStr (lit ''Subject: Re: {company}'')]
     \<in> set (trace (snd (loop_body (demo_env [erin]) (demo_args\<lparr>dry_run := True\<rparr>) 1 erin init)))
   \<and> Print [VStr (lit ''Subject: Hi C'')]
     \<in> set (trace (snd (loop_body (demo_env [carol]) (demo_args\<lparr>send := False\<rparr>) 1 carol init)))"
proof -
  have shown: "Print [VStr (lit ''Subject: '' @ subject_override_of r)]
     \<in> set (trace (snd (loop_body (demo_env rows) a 1 r init)))"
    if hyps: "to_email_of r \<noteq> []" "subject_override_of r \<noteq> []"
        "from_email a = Some (lit ''me@mail.org'')" "resume a = lit ''cv.pdf''"
        "dry_run a \<or> \<not> send a"
    for r rows a
  proof -
    note email = hyps(1) and ov = hyps(2) and args = hyps(3-5)
    have "\<exists>sj b. sj = subject_override_of r
        \<and> loop_body (demo_env rows) a 1 r init =
            build_and_route (demo_env rows) a (to_email_of r) (company_of r) sj b init
        \<and> (\<forall>s m s1. build_message (demo_env rows) s (from_name a) (from_email a)
              (to_email_of r) sj b (resume a) = (Inr m, s1) \<longrightarrow>
            build_and_route (demo_env rows) a (to_email_of r) (company_of r) sj b s =
              (Next, preview a (to_email_of r) (company_of r) sj b s1) \<and>
            Print [VStr (lit ''Subject: '' @ sj)] \<in>
              set (trace (preview a (to_email_of r) (company_of r) sj b s1)))"
      using subject_resolution [OF email, of "demo_env rows" a] ov args(3)
      by (elim conjE exE) (simp, metis)
    then obtain b where
      lb: "loop_body (demo_env rows) a 1 r init =
            build_and_route (demo_env rows) a (to_email_of r) (company_of r)
              (subject_override_of r) b init"
      and routed: "\<And>s m s1. build_message (demo_env rows) s (from_name a) (from_email a)
              (to_email_of r) (subject_override_of r) b (resume a) = (Inr m, s1) \<Longrightarrow>
            build_and_route (demo_env rows) a (to_email_of r) (company_of r)
              (subject_override_of r) b s =
              (Next, preview a (to_email_of r) (company_of r) (subject_override_of r) b s1) \<and>
            Print [VStr (lit ''Subject: '' @ subject_override_of r)] \<in>
              set (trace (preview a (to_email_of r) (company_of r)
                (subject_override_of r) b s1))"
      by auto
    have built: "build_message (demo_env rows) init (from_name a) (from_email a)
            (to_email_of r) (subject_override_of r) b (resume a) =
       (Inr \<lparr>msg_from = from_name a @ lit '' <'' @ lit ''me@mail.org'' @ lit ''>'',
             msg_to = to_email_of r, msg_subject = subject_override_of r, msg_content = b,
             msg_attachment = \<lparr>data = ''%PDF-1'', maintype = lit ''application'',
               subtype = lit ''pdf'', filename = lit ''cv.pdf''\<rparr>\<rparr>,
        init\<lparr>trace := trace init @ [PathExists (lit ''cv.pdf''), ReadFile (lit ''cv.pdf'')],
             fs_clock := fs_clock init + 2\<rparr>)"
      by (simp only: args build_message_demo)
    from routed [OF built] lb show ?thesis by (simp only: snd_conv)
  qed
  have erin: "to_email_of erin \<noteq> []" "subject_override_of erin = lit ''Re: {company}''"
    by (simp_all add: to_email_of_def subject_override_of_def erin_def row_of_def get_or_def
        strip_def isspace_def lit_def)
  have carol: "to_email_of carol \<noteq> []" "subject_override_of carol = lit ''Hi C''"
    by (simp_all add: to_email_of_def subject_override_of_def carol_def row_of_def get_or_def
        strip_def isspace_def lit_def)
  have nonempty: "lit ''Re: {company}'' \<noteq> []" "lit ''Hi C'' \<noteq> []"
    by (simp_all add: lit_def)
  have "Print [VStr (lit ''Subject: '' @ subject_override_of erin)]
     \<in> set (trace (snd (loop_body (demo_env [erin]) (demo_args\<lparr>dry_run := True\<rparr>) 1 erin init)))"
    by (rule shown) (simp_all add: erin nonempty demo_args_def)
  moreover have "Print [VStr (lit ''Subject: '' @ subject_override_of carol)]
     \<in> set (trace (snd (loop_body (demo_env [carol]) (demo_args\<lparr>send := False\<rparr>) 1 carol init)))"
    by (rule shown) (simp_all add: carol nonempty demo_args_def)
  moreover have "lit ''Subject: '' @ lit ''Re: {company}'' = lit ''Subject: Re: {company}''"
      "lit ''Subject: '' @ lit ''Hi C'' = lit ''Subject: Hi C''"
    by (simp_all add: lit_def)
  ultimately show ?thesis
    by (simp only: erin carol)
qed

section \<open>Defaults of the render context\<close>

text \<open>
  C9. The code at a row whose \<open>company\<close> field holds three spaces: the company of the
  render context is the empty string, not \<open>Company\<close>, and the rendered subject starts
  with a space and the dash. The \<open>contact_name\<close> column, written with the default after
  the trimming, does get \<open>Hiring Team\<close> for such a field; an empty or a missing
  \<open>company\<close> does get \<open>Company\<close>.
\<close>

theorem whitespace_company_not_defaulted:
  "company_of (row_of [(''email'', ''hr@acme.io''), (''company'', ''   '')]) = []
   \<and> contact_name_of (row_of [(''email'', ''hr@acme.io''), (''contact_name'', ''   '')]) =
       lit ''Hiring Team''
   \<and> company_of (row_of [(''email'', ''hr@acme.io''), (''company'', [])]) = lit ''Company''
   \<and> company_of (row_of [(''email'', ''hr@acme.io'')]) = lit ''Company''
   \<and> (\<exists>b. render (pick_role []) (company_of (row_of [(''email'', ''hr@acme.io''), (''company'', ''   '')]))
        (lit ''Hiring Team'') [] =
       Inr ([32, 8212] @ lit '' Software Engineer Application '' @ [8212] @ lit '' Ayush Chauhan'', b))"
proof -
  have c: "company_of (row_of [(''email'', ''hr@acme.io''), (''company'', ''   '')]) = []"
    by (simp add: company_of_def row_of_def get_or_def strip_def isspace_def lit_def)
  have n: "contact_name_of (row_of [(''email'', ''hr@acme.io''), (''contact_name'', ''   '')]) =
       lit ''Hiring Team''"
    by (simp add: contact_name_of_def row_of_def get_or_def strip_def isspace_def lit_def)
  have d1: "company_of (row_of [(''email'', ''hr@acme.io''), (''company'', [])]) = lit ''Company''"
    by (simp add: company_of_def row_of_def get_or_def strip_def isspace_def lit_def)
  have d2: "company_of (row_of [(''email'', ''hr@acme.io'')]) = lit ''Company''"
    by (simp add: company_of_def row_of_def get_or_def strip_def isspace_def lit_def)
  have p: "pick_role [] = lit ''software''" by (simp add: pick_role_def lit_def)
  have s: "\<exists>b. render (pick_role []) [] (lit ''Hiring Team'') [] =
       Inr ([32, 8212] @ lit '' Software Engineer Application '' @ [8212] @ lit '' Ayush Chauhan'', b)"
  proof -
    have "drop 9 (subject software_template) =
        [32, 8212] @ lit '' Software Engineer Application '' @ [8212] @ lit '' Ayush Chauhan''"
      by (simp add: software_template_def lit_def)
    then show ?thesis
      by (simp add: p render_def TEMPLATES_software format_subject format_body_software)
  qed
  from c n d1 d2 s show ?thesis by simp
qed

section \<open>Delivery with retries\<close>

text \<open>
  C2. When the mailer fails on each of the next \<open>MAX_RETRIES\<close> = 3 attempts, \<open>send_smtp\<close>
  makes exactly three attempts and returns \<open>False\<close>; every failed attempt is logged; it
  sleeps \<open>RETRY_BACKOFF * 1\<close> = 5 after the first and \<open>RETRY_BACKOFF * 2\<close> = 10 after
  the second, and does not sleep after the third. The caller then logs "Failed to send
  to ... after retries", and goes on to the throttle sleep.
\<close>

theorem retry_exhaustion:
  assumes "\<forall>k < MAX_RETRIES. \<not> mailer e (smtp_clock s + k)"
  shows "send_smtp e s host port user pass m =
     (Some False,
      s\<lparr>trace := trace s @
          [SmtpSend host port user pass m,
           LogException (lit ''Send attempt %s failed: %s'') [VInt 1, VExc TransportFailure],
           Sleep (real (RETRY_BACKOFF * 1)),
           SmtpSend host port user pass m,
           LogException (lit ''Send attempt %s failed: %s'') [VInt 2, VExc TransportFailure],
           Sleep (real (RETRY_BACKOFF * 2)),
           SmtpSend host port user pass m,
           LogException (lit ''Send attempt %s failed: %s'') [VInt 3, VExc TransportFailure]],
        smtp_clock := smtp_clock s + MAX_RETRIES\<rparr>)
     \<and> MAX_RETRIES = 3 \<and> RETRY_BACKOFF * 1 = 5 \<and> RETRY_BACKOFF * 2 = 10
     \<and> deliver e a to m s =
         (let s2 = emit (Log ERROR (lit ''Failed to send to %s after retries'') [VStr to])
                     (snd (send_smtp e s (smtp_host a) (smtp_port a) (smtp_user a)
                             (smtp_pass a) m))
          in case sleep_error e (delay a) of
               Some x \<Rightarrow> (Raise x, s2)
             | None \<Rightarrow> (Next, emit (Sleep (delay a)) s2))"
proof -
  have f: "\<not> mailer e (smtp_clock s)" "\<not> mailer e (Suc (smtp_clock s))"
      "\<not> mailer e (Suc (Suc (smtp_clock s)))"
    using assms [rule_format, of 0] assms [rule_format, of 1] assms [rule_format, of 2]
    by (simp_all add: MAX_RETRIES_def)
  have failed: "send_smtp e s h p u pw m =
     (Some False,
      s\<lparr>trace := trace s @
          [SmtpSend h p u pw m,
           LogException (lit ''Send attempt %s failed: %s'') [VInt 1, VExc TransportFailure],
           Sleep (real (RETRY_BACKOFF * 1)),
           SmtpSend h p u pw m,
           LogException (lit ''Send attempt %s failed: %s'') [VInt 2, VExc TransportFailure],
           Sleep (real (RETRY_BACKOFF * 2)),
           SmtpSend h p u pw m,
           LogException (lit ''Send attempt %s failed: %s'') [VInt 3, VExc TransportFailure]],
        smtp_clock := smtp_clock s + MAX_RETRIES\<rparr>)" for h p u pw
    by (simp add: send_smtp_unfold f emit_def Let_def MAX_RETRIES_def RETRY_BACKOFF_def)
  have numbers: "MAX_RETRIES = 3 \<and> RETRY_BACKOFF * 1 = 5 \<and> RETRY_BACKOFF * 2 = 10"
    by (simp add: MAX_RETRIES_def RETRY_BACKOFF_def)
  have reported: "deliver e a to m s =
         (let s2 = emit (Log ERROR (lit ''Failed to send to %s after retries'') [VStr to])
                     (snd (send_smtp e s (smtp_host a) (smtp_port a) (smtp_user a)
                             (smtp_pass a) m))
          in case sleep_error e (delay a) of
               Some x \<Rightarrow> (Raise x, s2)
             | None \<Rightarrow> (Next, emit (Sleep (delay a)) s2))"
    by (simp add: deliver_def failed Let_def)
  from failed numbers reported show ?thesis by blast
qed

theorem retry_exhaustion_witness:
  "send_smtp (demo_env []) init (lit ''smtp.gmail.com'') 587 None None demo_message =
     (Some False,
      \<lparr>trace =
          [SmtpSend (lit ''smtp.gmail.com'') 587 None None demo_message,
           LogException (lit ''Send attempt %s failed: %s'') [VInt 1, VExc TransportFailure],
           Sleep 5,
           SmtpSend (lit ''smtp.gmail.com'') 587 None None demo_message,
           LogException (lit ''Send attempt %s failed: %s'') [VInt 2, VExc TransportFailure],
           Sleep 10,
           SmtpSend (lit ''smtp.gmail.com'') 587 None None demo_message,
           LogException (lit ''Send attempt %s failed: %s'') [VInt 3, VExc TransportFailure]],
        fs_clock = 0, smtp_clock = 3\<rparr>)"
proof -
  have h: "\<forall>k < MAX_RETRIES. \<not> mailer (demo_env []) (smtp_clock init + k)"
    by (simp add: demo_env_def)
  show ?thesis
    using retry_exhaustion [OF h, of "lit ''smtp.gmail.com''" 587 None None demo_message]
    by (simp add: init_def)
qed

text \<open>
  C7. When the mailer fails on the next \<open>k - 1\<close> attempts and lets the \<open>k\<close>-th through
  (\<open>1 \<le> k \<le> MAX_RETRIES\<close>), \<open>send_smtp\<close> makes exactly \<open>k\<close> attempts and returns
  \<open>True\<close>: each failed attempt is followed by its log record and its backoff sleep, and
  the successful attempt is the last thing it does. The caller then logs "Sent to ...",
  and goes on to the throttle sleep.
\<close>

theorem retry_short_circuit:
  assumes "1 \<le> k" and "k \<le> MAX_RETRIES"
    and "\<forall>j < k - 1. \<not> mailer e (smtp_clock s + j)"
    and "mailer e (smtp_clock s + (k - 1))"
  shows "send_smtp e s host port user pass m =
     (Some True,
      s\<lparr>trace := trace s @
          concat (map (\<lambda>j. [SmtpSend host port user pass m,
                             LogException (lit ''Send attempt %s failed: %s'')
                               [VInt (int j), VExc TransportFailure],
                             Sleep (real (RETRY_BACKOFF * j))]) [1..<k]) @
          [SmtpSend host port user pass m],
        smtp_clock := smtp_clock s + k\<rparr>)
     \<and> deliver e a to m s =
         (let s2 = emit (Log INFO (lit ''Sent to %s'') [VStr to])
                     (snd (send_smtp e s (smtp_host a) (smtp_port a) (smtp_user a)
                             (smtp_pass a) m))
          in case sleep_error e (delay a) of
               Some x \<Rightarrow> (Raise x, s2)
             | None \<Rightarrow> (Next, emit (Sleep (delay a)) s2))"
proof -
  from assms(1,2) have "k = 1 \<or> k = 2 \<or> k = 3"
    unfolding MAX_RETRIES_def by arith
  then consider "k = 1" | "k = 2" | "k = 3" by blast
  then have sent: "send_smtp e s h p u pw m =
     (Some True,
      s\<lparr>trace := trace s @
          concat (map (\<lambda>j. [SmtpSend h p u pw m,
                             LogException (lit ''Send attempt %s failed: %s'')
                               [VInt (int j), VExc TransportFailure],
                             Sleep (real (RETRY_BACKOFF * j))]) [1..<k]) @
          [SmtpSend h p u pw m],
        smtp_clock := smtp_clock s + k\<rparr>)" for h p u pw
  proof cases
    case 1
    with assms(4) show ?thesis
      by (simp add: send_smtp_unfold emit_def Let_def)
  next
    case 2
    with assms(3,4) have "\<not> mailer e (smtp_clock s)" "mailer e (Suc (smtp_clock s))"
      by simp_all
    with 2 show ?thesis
      by (simp add: send_smtp_unfold emit_def Let_def MAX_RETRIES_def upt_rec)
  next
    case 3
    with assms(4) have "\<not> mailer e (smtp_clock s)" "\<not> mailer e (Suc (smtp_clock s))"
        "mailer e (Suc (Suc (smtp_clock s)))"
      using assms(3) [rule_format, of 0] assms(3) [rule_format, of 1]
      by (simp_all add: numeral_2_eq_2)
    with 3 show ?thesis
      by (simp add: send_smtp_unfold emit_def Let_def MAX_RETRIES_def upt_rec)
  qed
  have reported: "deliver e a to m s =
         (let s2 = emit (Log INFO (lit ''Sent to %s'') [VStr to])
                     (snd (send_smtp e s (smtp_host a) (smtp_port a) (smtp_user a)
                             (smtp_pass a) m))
          in case sleep_error e (delay a) of
               Some x \<Rightarrow> (Raise x, s2)
             | None \<Rightarrow> (Next, emit (Sleep (delay a)) s2))"
    by (simp add: deliver_def sent Let_def)
  from sent reported show ?thesis by blast
qed

theorem retry_short_circuit_witness:
  "send_smtp ((demo_env [])\<lparr>mailer := (\<lambda>n. n = 1)\<rparr>) init (lit ''smtp.gmail.com'') 587 None None
       demo_message =
     (Some True,
      \<lparr>trace =
          [SmtpSend (lit ''smtp.gmail.com'') 587 None None demo_message,
           LogException (lit ''Send attempt %s failed: %s'') [VInt 1, VExc TransportFailure],
           Sleep 5,
           SmtpSend (lit ''smtp.gmail.com'') 587 None None demo_message],
        fs_clock = 0, smtp_clock = 2\<rparr>)"
proof -
  let ?e = "(demo_env [])\<lparr>mailer := (\<lambda>n. n = 1)\<rparr>"
  have h: "(1::nat) \<le> 2" "2 \<le> MAX_RETRIES"
      "\<forall>j < 2 - 1. \<not> mailer ?e (smtp_clock init + j)"
      "mailer ?e (smtp_clock init + (2 - 1))"
    by (simp_all add: MAX_RETRIES_def init_def)
  show ?thesis
    using retry_short_circuit [OF h, of "lit ''smtp.gmail.com''" 587 None None demo_message]
    by (simp add: init_def RETRY_BACKOFF_def upt_rec)
qed

section \<open>Aborts before the loop\<close>




text \<open>
  C10. When the record source is read and yields no rows, \<open>main\<close> prints "No rows found
  in CSV. Aborting." and returns: the whole run is the start log record, the reading of
  the CSV file and that line. Nothing is said about the attachment or the mailer: no
  file is accessed and no SMTP attempt is made, whatever the attachment path holds.
\<close>

theorem empty_source_aborts:
  assumes "ReadCsv (csv a) \<in> set (trace (snd (main e a)))"
    and "record_source e (csv a) = Inr []"
  shows "main e a =
     (None,
      \<lparr>trace =
         [Log INFO (lit ''Starting email run. dry_run=%s, send=%s'')
            [VBool (dry_run a), VBool (send a)],
          ReadCsv (csv a),
          Print [VStr (lit ''No rows found in CSV. Aborting.'')]],
       fs_clock = 0, smtp_clock = 0\<rparr>)"
proof (cases "send a \<and> \<not> (truthy (smtp_user a) \<and> truthy (smtp_pass a) \<and> truthy (from_email a))")
  case True
  then have "trace (snd (main e a)) =
      [Log INFO (lit ''Starting email run. dry_run=%s, send=%s'')
               [VBool (dry_run a), VBool True],
             Log ERROR (lit ''SMTP credentials or from-email not provided. Set --smtp-user --smtp-pass --from-email or env vars.'') [],
             Print [VStr (lit ''Missing SMTP settings (SMTP_USER, SMTP_PASS, or FROM_EMAIL). Aborting.'')]]"
    by (simp add: main_def emit_def init_def Let_def)
  with assms(1) show ?thesis by simp
next
  case False
  with assms(2) show ?thesis
    by (simp add: main_proceed emit_def init_def)
qed

theorem empty_source_aborts_witness:
  "main (demo_env []) (demo_args\<lparr>resume := lit ''nowhere.pdf''\<rparr>) =
     (None,
      \<lparr>trace =
         [Log INFO (lit ''Starting email run. dry_run=%s, send=%s'') [VBool False, VBool True],
          ReadCsv (lit ''list.csv''),
          Print [VStr (lit ''No rows found in CSV. Aborting.'')]],
       fs_clock = 0, smtp_clock = 0\<rparr>)"
proof -
  let ?a = "demo_args\<lparr>resume := lit ''nowhere.pdf''\<rparr>"
  have ok: "\<not> (send ?a \<and>
      \<not> (truthy (smtp_user ?a) \<and> truthy (smtp_pass ?a) \<and> truthy (from_email ?a)))"
    by (simp add: demo_args_def truthy_def lit_def)
  have h1: "ReadCsv (csv ?a) \<in> set (trace (snd (main (demo_env []) ?a)))"
    by (simp add: main_proceed [OF ok] demo_env_def emit_def init_def)
  have h2: "record_source (demo_env []) (csv ?a) = Inr []"
    by (simp add: demo_env_def)
  show ?thesis
    using empty_source_aborts [OF h1 h2] by (simp add: demo_args_def)
qed

section \<open>A missing attachment\<close>

text \<open>
  C1. Let the rows before \<open>r\<close> be processed with the loop going on, let \<open>r\<close> have an
  email address, and let the building of its message, with the recipient, subject and
  body resolved for \<open>r\<close>, fail with \<open>FileNotFoundError\<close> (the path does not exist, or
  the file is gone when it is opened). Then the run ends there: the error is logged
  ("Resume file error: ...") and printed, \<open>main\<close> returns, and nothing is done for the
  rows after \<open>r\<close> (the run does not depend on them and does not log "Run complete.").
\<close>

theorem attachment_failure_halts_run:
  assumes "\<not> (send a \<and>
      \<not> (truthy (smtp_user a) \<and> truthy (smtp_pass a) \<and> truthy (from_email a)))"
    and "record_source e (csv a) = Inr (pre @ r # post)"
    and "dispatch e a 1 pre
           (emit (ReadCsv (csv a))
              (emit (Log INFO (lit ''Starting email run. dry_run=%s, send=%s'')
                 [VBool (dry_run a), VBool (send a)]) init)) = (Next, s1)"
    and "to_email_of r \<noteq> []"
    and "render (pick_role (preferred_of e r)) (company_of r) (contact_name_of r)
           (subject_override_of r) = Inr (sj, b)"
    and "build_message e s1 (from_name a) (from_email a) (to_email_of r) sj b (resume a) =
           (Inl (FileNotFoundError fe), s2)"
  shows "main e a =
     (None,
      s2\<lparr>trace := trace s2 @
         [Log ERROR (lit ''Resume file error: %s'') [VExc (FileNotFoundError fe)],
          Print [VExc (FileNotFoundError fe)]]\<rparr>)"
proof -
  have "dispatch e a 1 (pre @ r # post)
           (emit (ReadCsv (csv a))
              (emit (Log INFO (lit ''Starting email run. dry_run=%s, send=%s'')
                 [VBool (dry_run a), VBool (send a)]) init)) =
     (Return,
      emit (Print [VExc (FileNotFoundError fe)])
        (emit (Log ERROR (lit ''Resume file error: %s'') [VExc (FileNotFoundError fe)]) s2))"
    using assms(3) loop_body_build_failure [OF assms(4,5,6)]
    by (simp add: dispatch_append)
  with assms(2) show ?thesis
    by (simp add: main_proceed [OF assms(1)] emit_def)
qed

theorem attachment_failure_halts_run_witness:
  "main (demo_env [blank, alice, carol]) (demo_args\<lparr>resume := lit ''./nowhere.pdf''\<rparr>) =
     (None,
      \<lparr>trace =
         [Log INFO (lit ''Starting email run. dry_run=%s, send=%s'') [VBool False, VBool True],
          ReadCsv (lit ''list.csv''),
          Log WARNING (lit ''Row %d missing email, skipping'') [VInt 1],
          PathExists (lit ''nowhere.pdf''),
          Log ERROR (lit ''Resume file error: %s'')
            [VExc (FileNotFoundError (ResumeNotFound (lit ''nowhere.pdf'')))],
          Print [VExc (FileNotFoundError (ResumeNotFound (lit ''nowhere.pdf'')))]],
       fs_clock = 1, smtp_clock = 0\<rparr>)"
proof -
  let ?a = "demo_args\<lparr>resume := lit ''./nowhere.pdf''\<rparr>"
  let ?e = "demo_env [blank, alice, carol]"
  let ?s1 = "\<lparr>trace =
         [Log INFO (lit ''Starting email run. dry_run=%s, send=%s'') [VBool False, VBool True],
          ReadCsv (lit ''list.csv''),
          Log WARNING (lit ''Row %d missing email, skipping'') [VInt 1]],
       fs_clock = 0, smtp_clock = 0\<rparr>"
  have ok: "\<not> (send ?a \<and>
      \<not> (truthy (smtp_user ?a) \<and> truthy (smtp_pass ?a) \<and> truthy (from_email ?a)))"
    by (simp add: demo_args_def truthy_def lit_def)
  have rows: "record_source ?e (csv ?a) = Inr ([blank] @ alice # [carol])"
    by (simp add: demo_env_def)
  have "to_email_of blank = []"
    by (simp add: to_email_of_def blank_def row_of_def get_or_def strip_def isspace_def lit_def)
  then have pre: "dispatch ?e ?a 1 [blank]
           (emit (ReadCsv (csv ?a))
              (emit (Log INFO (lit ''Starting email run. dry_run=%s, send=%s'')
                 [VBool (dry_run ?a), VBool (send ?a)]) init)) = (Next, ?s1)"
    by (simp add: loop_body_def emit_def init_def demo_args_def)
  have email: "to_email_of alice \<noteq> []"
    by (simp add: to_email_of_def alice_def row_of_def get_or_def strip_def isspace_def lit_def)
  obtain sj b where rd: "render (pick_role (preferred_of ?e alice)) (company_of alice)
      (contact_name_of alice) (subject_override_of alice) = Inr (sj, b)"
    using render_pick_role [of "preferred_of ?e alice" "company_of alice"
        "contact_name_of alice" "subject_override_of alice"] by blast
  have path: "path_str (lit ''./nowhere.pdf'') = lit ''nowhere.pdf''"
    by (simp add: path_str_def path_root_def path_parts_def lit_def)
  have fail: "build_message ?e ?s1 (from_name ?a) (from_email ?a) (to_email_of alice) sj b
      (resume ?a) =
      (Inl (FileNotFoundError (ResumeNotFound (lit ''nowhere.pdf''))),
       ?s1\<lparr>trace := trace ?s1 @ [PathExists (lit ''nowhere.pdf'')], fs_clock := 1\<rparr>)"
    by (simp add: build_message_def set_headers_def attach_resume_def formataddr_def path
        demo_env_def demo_args_def emit_def Let_def)
       (simp_all add: lit_def)
  show ?thesis
    using attachment_failure_halts_run [OF ok rows pre email rd fail] by simp
qed

section \<open>The attachment\<close>

text \<open>
  C6 does not hold as "loaded once per run": \<open>build_message\<close> checks and reads the
  file each time it is called. In this run of two recipients the file is read twice,
  and since it is replaced in between, the two messages sent carry different bytes.
\<close>

theorem attachment_reread_and_changed:
  "file_reads (trace (snd (main changing_env demo_args))) = [lit ''cv.pdf'', lit ''cv.pdf'']
   \<and> map (data \<circ> msg_attachment) (attempts_of (trace (snd (main changing_env demo_args)))) =
       [''old'', ''new'']"
proof -
  let ?a = demo_args
  let ?s0 = "emit (ReadCsv (csv ?a))
      (emit (Log INFO (lit ''Starting email run. dry_run=%s, send=%s'')
         [VBool (dry_run ?a), VBool (send ?a)]) init)"
  have ok: "\<not> (send ?a \<and> \<not> (truthy (smtp_user ?a) \<and>
      truthy (smtp_pass ?a) \<and> truthy (from_email ?a)))"
    by (simp add: demo_args_def truthy_def lit_def)
  have emails: "to_email_of alice \<noteq> []" "to_email_of carol \<noteq> []"
    by (simp_all add: to_email_of_def alice_def carol_def row_of_def get_or_def
        strip_def isspace_def lit_def)
  have args: "from_email ?a = Some (lit ''me@mail.org'')" "resume ?a = lit ''cv.pdf''"
      "\<not> (dry_run ?a \<or> \<not> send ?a)"
    by (simp_all add: demo_args_def)
  have env: "mailer changing_env n" "sleep_error changing_env (delay ?a) = None" for n
    by (simp_all add: changing_env_def demo_env_def demo_args_def DEFAULT_DELAY_SECONDS_def)
  have s0: "fs_clock ?s0 = 0" "smtp_clock ?s0 = 0"
      "trace ?s0 = [Log INFO (lit ''Starting email run. dry_run=%s, send=%s'')
         [VBool (dry_run ?a), VBool (send ?a)], ReadCsv (csv ?a)]"
    by (simp_all add: emit_def init_def)
  have step: "\<exists>m. data (msg_attachment m) = (if fs_clock s = 0 then ''old'' else ''new'') \<and>
      loop_body changing_env ?a i r s =
       (Next,
        s\<lparr>trace := trace s @
            [PathExists (lit ''cv.pdf''), ReadFile (lit ''cv.pdf''),
             SmtpSend (smtp_host ?a) (smtp_port ?a) (smtp_user ?a) (smtp_pass ?a) m,
             Log INFO (lit ''Sent to %s'') [VStr (to_email_of r)],
             Sleep (delay ?a)],
          fs_clock := fs_clock s + 2, smtp_clock := smtp_clock s + 1\<rparr>)"
    if "to_email_of r \<noteq> []" for r i s
  proof -
    from loop_body_resolved [OF that] obtain sj b where
      lb: "loop_body changing_env ?a i r s =
          build_and_route changing_env ?a (to_email_of r) (company_of r) sj b s"
      by blast
    let ?m = "\<lparr>msg_from = from_name ?a @ lit '' <'' @ lit ''me@mail.org'' @ lit ''>'',
        msg_to = to_email_of r, msg_subject = sj, msg_content = b,
        msg_attachment = \<lparr>data = (if fs_clock s = 0 then ''old'' else ''new''),
          maintype = lit ''application'', subtype = lit ''pdf'',
          filename = lit ''cv.pdf''\<rparr>\<rparr>"
    let ?s1 = "s\<lparr>trace := trace s @ [PathExists (lit ''cv.pdf''), ReadFile (lit ''cv.pdf'')],
        fs_clock := fs_clock s + 2\<rparr>"
    have "build_message changing_env s (from_name ?a) (from_email ?a) (to_email_of r) sj b
        (resume ?a) = (Inr ?m, ?s1)"
      by (simp only: args build_message_changing)
    from build_and_route_deliver [OF args(3) this]
    have "loop_body changing_env ?a i r s = deliver changing_env ?a (to_email_of r) ?m ?s1"
      by (simp only: lb)
    also have "\<dots> = (Next,
        ?s1\<lparr>trace := trace ?s1 @
            [SmtpSend (smtp_host ?a) (smtp_port ?a) (smtp_user ?a) (smtp_pass ?a) ?m,
             Log INFO (lit ''Sent to %s'') [VStr (to_email_of r)],
             Sleep (delay ?a)],
          smtp_clock := smtp_clock ?s1 + 1\<rparr>)"
      by (rule deliver_first_try) (rule env)+
    finally have "loop_body changing_env ?a i r s =
       (Next,
        s\<lparr>trace := trace s @
            [PathExists (lit ''cv.pdf''), ReadFile (lit ''cv.pdf''),
             SmtpSend (smtp_host ?a) (smtp_port ?a) (smtp_user ?a) (smtp_pass ?a) ?m,
             Log INFO (lit ''Sent to %s'') [VStr (to_email_of r)],
             Sleep (delay ?a)],
          fs_clock := fs_clock s + 2, smtp_clock := smtp_clock s + 1\<rparr>)"
      by simp
    then show ?thesis by (intro exI [of _ ?m]) simp
  qed
  from step [OF emails(1), of ?s0 1] s0(1) obtain m1 where m1: "data (msg_attachment m1) = ''old''"
    "loop_body changing_env ?a 1 alice ?s0 =
       (Next,
        ?s0\<lparr>trace := trace ?s0 @
            [PathExists (lit ''cv.pdf''), ReadFile (lit ''cv.pdf''),
             SmtpSend (smtp_host ?a) (smtp_port ?a) (smtp_user ?a) (smtp_pass ?a) m1,
             Log INFO (lit ''Sent to %s'') [VStr (to_email_of alice)],
             Sleep (delay ?a)],
          fs_clock := fs_clock ?s0 + 2, smtp_clock := smtp_clock ?s0 + 1\<rparr>)"
    by auto
  let ?s1 = "?s0\<lparr>trace := trace ?s0 @
            [PathExists (lit ''cv.pdf''), ReadFile (lit ''cv.pdf''),
             SmtpSend (smtp_host ?a) (smtp_port ?a) (smtp_user ?a) (smtp_pass ?a) m1,
             Log INFO (lit ''Sent to %s'') [VStr (to_email_of alice)],
             Sleep (delay ?a)],
          fs_clock := fs_clock ?s0 + 2, smtp_clock := smtp_clock ?s0 + 1\<rparr>"
  have s1: "fs_clock ?s1 = 2" using s0 by simp
  from step [OF emails(2), of ?s1 2] s1 obtain m2 where m2: "data (msg_attachment m2) = ''new''"
    "loop_body changing_env ?a 2 carol ?s1 =
       (Next,
        ?s1\<lparr>trace := trace ?s1 @
            [PathExists (lit ''cv.pdf''), ReadFile (lit ''cv.pdf''),
             SmtpSend (smtp_host ?a) (smtp_port ?a) (smtp_user ?a) (smtp_pass ?a) m2,
             Log INFO (lit ''Sent to %s'') [VStr (to_email_of carol)],
             Sleep (delay ?a)],
          fs_clock := fs_clock ?s1 + 2, smtp_clock := smtp_clock ?s1 + 1\<rparr>)"
    by auto
  have "record_source changing_env (csv ?a) = Inr [alice, carol]"
    by (simp add: changing_env_def demo_env_def)
  then have "snd (main changing_env ?a) =
      emit (Log INFO (lit ''Run complete.'') [])
        (?s1\<lparr>trace := trace ?s1 @
            [PathExists (lit ''cv.pdf''), ReadFile (lit ''cv.pdf''),
             SmtpSend (smtp_host ?a) (smtp_port ?a) (smtp_user ?a) (smtp_pass ?a) m2,
             Log INFO (lit ''Sent to %s'') [VStr (to_email_of carol)],
             Sleep (delay ?a)],
          fs_clock := fs_clock ?s1 + 2, smtp_clock := smtp_clock ?s1 + 1\<rparr>)"
    using m1(2) m2(2) by (simp add: main_proceed [OF ok] numeral_2_eq_2)
  then show ?thesis
    using m1(1) m2(1) by (simp add: emit_def init_def)
qed

text \<open>
  C6, as the code has it. Every file read of a run is of the one path
  \<open>str(Path(args.resume))\<close>. A run that gets past the credential check and whose loop
  goes through all the rows reads it once for every row that has an email address,
  that is once per message built. And when every read of that path that succeeds
  gives the same bytes \<open>d\<close> (the file does not change while the run lasts), every
  message handed to the mailer carries \<open>d\<close>.
\<close>

theorem attachment_read_for_each_message:
  "set (file_reads (trace (snd (main e a)))) \<subseteq> {path_str (resume a)}
   \<and> (\<not> (send a \<and>
          \<not> (truthy (smtp_user a) \<and> truthy (smtp_pass a) \<and> truthy (from_email a))) \<and>
       record_source e (csv a) = Inr rows \<and>
       dispatch e a 1 rows
         (emit (ReadCsv (csv a))
            (emit (Log INFO (lit ''Starting email run. dry_run=%s, send=%s'')
               [VBool (dry_run a), VBool (send a)]) init)) = (Next, s2) \<longrightarrow>
       file_reads (trace (snd (main e a))) =
         replicate (length (filter (\<lambda>r. to_email_of r \<noteq> []) rows)) (path_str (resume a)))
   \<and> ((\<forall>t d'. read_bytes e t (path_str (resume a)) = Inr d' \<longrightarrow> d' = d) \<longrightarrow>
       (\<forall>m \<in> set (attempts_of (trace (snd (main e a)))). data (msg_attachment m) = d))"
proof (cases "send a \<and>
    \<not> (truthy (smtp_user a) \<and> truthy (smtp_pass a) \<and> truthy (from_email a))")
  case True
  then have "trace (snd (main e a)) =
      [Log INFO (lit ''Starting email run. dry_run=%s, send=%s'')
         [VBool (dry_run a), VBool (send a)],
       Log ERROR (lit ''SMTP credentials or from-email not provided. Set --smtp-user --smtp-pass --from-email or env vars.'') [],
       Print [VStr (lit ''Missing SMTP settings (SMTP_USER, SMTP_PASS, or FROM_EMAIL). Aborting.'')]]"
    by (simp add: main_def emit_def init_def Let_def)
  with True show ?thesis by simp
next
  case False
  from main_effect [OF False, of e] obtain evs where
    run: "trace (snd (main e a)) =
       [Log INFO (lit ''Starting email run. dry_run=%s, send=%s'')
          [VBool (dry_run a), VBool (send a)], ReadCsv (csv a)] @ evs"
      "set (file_reads evs) \<subseteq> {path_str (resume a)}"
      "\<forall>m \<in> set (attempts_of evs).
        \<exists>t. read_bytes e t (path_str (resume a)) = Inr (data (msg_attachment m))"
    by blast
  have one_path: "set (file_reads (trace (snd (main e a)))) \<subseteq> {path_str (resume a)}"
    using run(1,2) by simp
  have same: "\<forall>m \<in> set (attempts_of (trace (snd (main e a)))). data (msg_attachment m) = d"
    if "\<forall>t d'. read_bytes e t (path_str (resume a)) = Inr d' \<longrightarrow> d' = d"
    using run(1,3) that by simp blast
  have each: "file_reads (trace (snd (main e a))) =
      replicate (length (filter (\<lambda>r. to_email_of r \<noteq> []) rows)) (path_str (resume a))"
    if "record_source e (csv a) = Inr rows"
      and "dispatch e a 1 rows
         (emit (ReadCsv (csv a))
            (emit (Log INFO (lit ''Starting email run. dry_run=%s, send=%s'')
               [VBool (dry_run a), VBool (send a)]) init)) = (Next, s2)"
    using main_complete_reads [OF False that] .
  from one_path each same show ?thesis by blast
qed

theorem attachment_read_for_each_message_witness:
  "file_reads (trace (snd (main (demo_env [alice, blank, carol]) demo_args))) =
     [lit ''cv.pdf'', lit ''cv.pdf'']
   \<and> set (map (data \<circ> msg_attachment)
          (attempts_of (trace (snd (main (demo_env [alice, blank, carol]) demo_args)))))
       \<subseteq> {''%PDF-1''}"
proof -
  let ?e = "demo_env [alice, blank, carol]"
  have ok: "\<not> (send demo_args \<and> \<not> (truthy (smtp_user demo_args) \<and>
      truthy (smtp_pass demo_args) \<and> truthy (from_email demo_args)))"
    by (simp add: demo_args_def truthy_def lit_def)
  have rows: "record_source ?e (csv demo_args) = Inr [alice, blank, carol]"
    by (simp add: demo_env_def)
  have path: "path_str (resume demo_args) = lit ''cv.pdf''"
    by (simp add: demo_args_def path_str_def path_root_def path_parts_def lit_def)
  have unchanged: "\<forall>t d'. read_bytes ?e t (path_str (resume demo_args)) = Inr d' \<longrightarrow>
      d' = ''%PDF-1''"
    unfolding path by (simp add: demo_env_def)
  have emails: "to_email_of alice \<noteq> []" "to_email_of blank = []" "to_email_of carol \<noteq> []"
    by (simp_all add: to_email_of_def alice_def blank_def carol_def row_of_def get_or_def
        strip_def isspace_def lit_def)
  have "\<exists>s2. dispatch ?e demo_args 1 [alice, blank, carol]
         (emit (ReadCsv (csv demo_args))
            (emit (Log INFO (lit ''Starting email run. dry_run=%s, send=%s'')
               [VBool (dry_run demo_args), VBool (send demo_args)]) init)) = (Next, s2)"
    by (rule dispatch_demo_continues [of demo_args "lit ''me@mail.org''"])
       (simp_all add: demo_args_def DEFAULT_DELAY_SECONDS_def)
  then obtain s2 where all_rows: "dispatch ?e demo_args 1 [alice, blank, carol]
         (emit (ReadCsv (csv demo_args))
            (emit (Log INFO (lit ''Starting email run. dry_run=%s, send=%s'')
               [VBool (dry_run demo_args), VBool (send demo_args)]) init)) = (Next, s2)" ..
  show ?thesis
    using attachment_read_for_each_message
      [of ?e demo_args "[alice, blank, carol]" s2 "''%PDF-1''"]
      ok rows unchanged all_rows emails path
    by (auto simp: numeral_2_eq_2)
qed

end
